theory Spec2Isabelle
  imports Main "HOL-Library.Sublist" "HOL-Library.Word"
begin

section \<open>Strings of the runtime\<close>

text \<open>
  A string of the program is a list of code units. This development covers the strings
  whose code units lie in U+0000..U+00FF, one \<^typ>\<open>char\<close> each; within that range the
  functions below are the ECMAScript built-ins that the upload dialog calls.
\<close>

definition NL :: string where
  "NL = [CHR 0x0A]"

definition FENCE :: string where
  "FENCE = [CHR 0x60, CHR 0x60, CHR 0x60]"

text \<open>WhiteSpace and LineTerminator, as used by \<^verbatim>\<open>String.prototype.trim\<close> and \<^verbatim>\<open>\s\<close>.\<close>

definition isWhiteSpace :: "char \<Rightarrow> bool" where
  "isWhiteSpace c \<longleftrightarrow>
     c = CHR 0x09 \<or> c = CHR 0x0A \<or> c = CHR 0x0B \<or> c = CHR 0x0C \<or> c = CHR 0x0D \<or>
     c = CHR 0x20 \<or> c = CHR 0xA0"

definition trim :: "string \<Rightarrow> string" where
  "trim s = rev (dropWhile isWhiteSpace (rev (dropWhile isWhiteSpace s)))"

definition startsWith :: "string \<Rightarrow> string \<Rightarrow> bool" where
  "startsWith s p = prefix p s"

fun includes_str :: "string \<Rightarrow> string \<Rightarrow> bool" where
  "includes_str [] p = (p = [])"
| "includes_str (c # cs) p = (prefix p (c # cs) \<or> includes_str cs p)"

definition toLowerChar :: "char \<Rightarrow> char" where
  "toLowerChar c =
     (let n = (of_char c :: nat) in
      if (65 \<le> n \<and> n \<le> 90) \<or> (192 \<le> n \<and> n \<le> 222 \<and> n \<noteq> 215)
      then char_of (n + 32) else c)"

definition toLowerCase :: "string \<Rightarrow> string" where
  "toLowerCase s = map toLowerChar s"

text \<open>\<^verbatim>\<open>Array.prototype.join\<close> on an array of strings.\<close>

fun join :: "string \<Rightarrow> string list \<Rightarrow> string" where
  "join sep [] = []"
| "join sep [x] = x"
| "join sep (x # y # ys) = x @ sep @ join sep (y # ys)"

text \<open>Decimal rendering of a non-negative integer, as a template literal renders it.\<close>

definition digitChar :: "nat \<Rightarrow> char" where
  "digitChar d = ''0123456789'' ! d"

function numberToString :: "nat \<Rightarrow> string" where
  "numberToString n =
     (if n < 10 then [digitChar n] else numberToString (n div 10) @ [digitChar (n mod 10)])"
  by pat_completeness auto
termination
  by (relation "measure id") auto

text \<open>
  \<^verbatim>\<open>s.replace(/PAT\n?/g, "")\<close> for a literal, non-empty pattern: scanning from the left,
  every occurrence of the pattern is dropped together with one line feed after it.
\<close>

function replaceAllOptNL :: "string \<Rightarrow> string \<Rightarrow> string" where
  "replaceAllOptNL pat [] = []"
| "replaceAllOptNL pat (c # cs) =
     (if pat \<noteq> [] \<and> prefix pat (c # cs)
      then (case drop (length pat) (c # cs) of
              [] \<Rightarrow> []
            | d # ds \<Rightarrow> if d = CHR 0x0A then replaceAllOptNL pat ds
                        else replaceAllOptNL pat (d # ds))
      else c # replaceAllOptNL pat cs)"
  by pat_completeness auto
termination
proof (relation "measure (\<lambda>(pat, s). length s)", goal_cases)
  case 1
  show ?case by simp
next
  case (2 pat c cs d ds)
  then have "length (d # ds) = length (c # cs) - length pat"
    by (metis length_drop)
  then show ?case by simp
next
  case (3 pat c cs d ds)
  then have "length (d # ds) = length (c # cs) - length pat"
    by (metis length_drop)
  moreover from 3 have "length pat > 0" by simp
  ultimately show ?case by simp
next
  case 4
  show ?case by simp
qed

text \<open>
  \<^verbatim>\<open>s.replace(/```\n?$/g, "")\<close>: the first position from the left at which the rest of
  the string is exactly a fence, or a fence and a line feed, is where the string is cut.
\<close>

fun replaceFenceAtEnd :: "string \<Rightarrow> string" where
  "replaceFenceAtEnd [] = []"
| "replaceFenceAtEnd (c # cs) =
     (if c # cs = FENCE \<or> c # cs = FENCE @ NL then [] else c # replaceFenceAtEnd cs)"

text \<open>\<^verbatim>\<open>s.replace(/\s+/g, "_")\<close>: every maximal run of white space becomes one underscore.\<close>

function replaceSpaces :: "string \<Rightarrow> string" where
  "replaceSpaces [] = []"
| "replaceSpaces (c # cs) =
     (if isWhiteSpace c then CHR ''_'' # replaceSpaces (dropWhile isWhiteSpace cs)
      else c # replaceSpaces cs)"
  by pat_completeness auto
termination
  by (relation "measure length") (auto simp: less_Suc_eq_le length_dropWhile_le)

text \<open>\<^verbatim>\<open>name.split(".").pop()\<close>: what follows the last dot, the whole name without one.\<close>

definition fileExtension :: "string \<Rightarrow> string" where
  "fileExtension name = rev (takeWhile (\<lambda>c. c \<noteq> CHR ''.'') (rev name))"

text \<open>
  \<^verbatim>\<open>name.replace(/\.[^/.]+$/, "")\<close>: the string is cut at the first dot from the left
  that is followed, up to the end, by one or more characters other than a dot and a slash.
\<close>

fun removeExtension :: "string \<Rightarrow> string" where
  "removeExtension [] = []"
| "removeExtension (c # cs) =
     (if c = CHR ''.'' \<and> cs \<noteq> [] \<and> (\<forall>d \<in> set cs. d \<noteq> CHR ''.'' \<and> d \<noteq> CHR ''/'')
      then [] else c # removeExtension cs)"

section \<open>\<^verbatim>\<open>JSON.parse\<close>\<close>

text \<open>
  The built-in parser of the runtime, after the JSON grammar: a lexer that reads the text one
  code unit at a time, and a parser that reads the tokens one at a time with a stack of the
  arrays and objects that are still open. A string value keeps its code units as numbers,
  since an escape \<^verbatim>\<open>\uXXXX\<close> may denote any 16-bit unit. A number keeps its literal.
\<close>

datatype json =
    JNull
  | JBool bool
  | JNumber string
  | JString "nat list"
  | JArray "json list"
  | JObject "(nat list \<times> json) list"

datatype token =
    TLBrace | TRBrace | TLBracket | TRBracket | TColon | TComma
  | TString "nat list" | TNumber string | TTrue | TFalse | TNull

datatype numState = NMinus | NZero | NInt | NDot | NFrac | NExpMark | NExpSign | NExp

datatype lexMode =
    LStart
  | LString "nat list"
  | LEscape "nat list"
  | LHex "nat list" "nat list"
  | LNumber numState string
  | LLiteral string token

definition isJsonSpace :: "char \<Rightarrow> bool" where
  "isJsonSpace c \<longleftrightarrow> c = CHR 0x20 \<or> c = CHR 0x09 \<or> c = CHR 0x0A \<or> c = CHR 0x0D"

definition isDigit :: "char \<Rightarrow> bool" where
  "isDigit c \<longleftrightarrow> c \<in> set ''0123456789''"

definition hexValue :: "char \<Rightarrow> nat option" where
  "hexValue c = map_of (zip ''0123456789abcdefABCDEF''
     [0, 1, 2, 3, 4, 5, 6, 7, 8, 9, 10, 11, 12, 13, 14, 15, 10, 11, 12, 13, 14, 15]) c"

definition escapeValue :: "char \<Rightarrow> nat option" where
  "escapeValue c = map_of
     [(CHR 0x22, 34), (CHR 0x5C, 92), (CHR ''/'', 47), (CHR ''b'', 8), (CHR ''f'', 12),
      (CHR ''n'', 10), (CHR ''r'', 13), (CHR ''t'', 9)] c"

definition numComplete :: "numState \<Rightarrow> bool" where
  "numComplete st \<longleftrightarrow> st = NZero \<or> st = NInt \<or> st = NFrac \<or> st = NExp"

definition isExpMark :: "char \<Rightarrow> bool" where
  "isExpMark c \<longleftrightarrow> c = CHR ''e'' \<or> c = CHR ''E''"

fun numStep :: "numState \<Rightarrow> char \<Rightarrow> numState option" where
  "numStep NMinus c =
     (if c = CHR ''0'' then Some NZero else if isDigit c then Some NInt else None)"
| "numStep NZero c =
     (if c = CHR ''.'' then Some NDot else if isExpMark c then Some NExpMark else None)"
| "numStep NInt c =
     (if isDigit c then Some NInt else if c = CHR ''.'' then Some NDot
      else if isExpMark c then Some NExpMark else None)"
| "numStep NDot c = (if isDigit c then Some NFrac else None)"
| "numStep NFrac c =
     (if isDigit c then Some NFrac else if isExpMark c then Some NExpMark else None)"
| "numStep NExpMark c =
     (if c = CHR ''+'' \<or> c = CHR ''-'' then Some NExpSign
      else if isDigit c then Some NExp else None)"
| "numStep NExpSign c = (if isDigit c then Some NExp else None)"
| "numStep NExp c = (if isDigit c then Some NExp else None)"

text \<open>Between two tokens: white space is skipped, any other character begins a token.\<close>

definition startToken :: "token list \<Rightarrow> char \<Rightarrow> (lexMode \<times> token list) option" where
  "startToken toks c =
     (if isJsonSpace c then Some (LStart, toks)
      else if c = CHR ''{'' then Some (LStart, toks @ [TLBrace])
      else if c = CHR ''}'' then Some (LStart, toks @ [TRBrace])
      else if c = CHR ''['' then Some (LStart, toks @ [TLBracket])
      else if c = CHR '']'' then Some (LStart, toks @ [TRBracket])
      else if c = CHR '':'' then Some (LStart, toks @ [TColon])
      else if c = CHR '','' then Some (LStart, toks @ [TComma])
      else if c = CHR 0x22 then Some (LString [], toks)
      else if c = CHR ''-'' then Some (LNumber NMinus [c], toks)
      else if c = CHR ''0'' then Some (LNumber NZero [c], toks)
      else if isDigit c then Some (LNumber NInt [c], toks)
      else if c = CHR ''t'' then Some (LLiteral ''rue'' TTrue, toks)
      else if c = CHR ''f'' then Some (LLiteral ''alse'' TFalse, toks)
      else if c = CHR ''n'' then Some (LLiteral ''ull'' TNull, toks)
      else None)"

fun lexStep :: "lexMode \<times> token list \<Rightarrow> char \<Rightarrow> (lexMode \<times> token list) option" where
  "lexStep (LStart, toks) c = startToken toks c"
| "lexStep (LString acc, toks) c =
     (if c = CHR 0x22 then Some (LStart, toks @ [TString acc])
      else if c = CHR 0x5C then Some (LEscape acc, toks)
      else if (of_char c :: nat) < 32 then None
      else Some (LString (acc @ [of_char c]), toks))"
| "lexStep (LEscape acc, toks) c =
     (if c = CHR ''u'' then Some (LHex acc [], toks)
      else (case escapeValue c of
              None \<Rightarrow> None
            | Some v \<Rightarrow> Some (LString (acc @ [v]), toks)))"
| "lexStep (LHex acc ds, toks) c =
     (case hexValue c of
        None \<Rightarrow> None
      | Some v \<Rightarrow>
          if length ds = 3
          then Some (LString (acc @ [foldl (\<lambda>x d. 16 * x + d) 0 (ds @ [v])]), toks)
          else Some (LHex acc (ds @ [v]), toks))"
| "lexStep (LNumber st lx, toks) c =
     (case numStep st c of
        Some st' \<Rightarrow> Some (LNumber st' (lx @ [c]), toks)
      | None \<Rightarrow> if numComplete st then startToken (toks @ [TNumber lx]) c else None)"
| "lexStep (LLiteral rest tok, toks) c =
     (case rest of
        [] \<Rightarrow> None
      | r # rs \<Rightarrow>
          if c \<noteq> r then None
          else if rs = [] then Some (LStart, toks @ [tok])
          else Some (LLiteral rs tok, toks))"

fun lexEnd :: "lexMode \<times> token list \<Rightarrow> token list option" where
  "lexEnd (LStart, toks) = Some toks"
| "lexEnd (LNumber st lx, toks) = (if numComplete st then Some (toks @ [TNumber lx]) else None)"
| "lexEnd (_, toks) = None"

fun lexRun :: "lexMode \<times> token list \<Rightarrow> string \<Rightarrow> (lexMode \<times> token list) option" where
  "lexRun st [] = Some st"
| "lexRun st (c # cs) = (case lexStep st c of None \<Rightarrow> None | Some st' \<Rightarrow> lexRun st' cs)"

definition tokenize :: "string \<Rightarrow> token list option" where
  "tokenize s = (case lexRun (LStart, []) s of None \<Rightarrow> None | Some st \<Rightarrow> lexEnd st)"

text \<open>While a literal is being read, what is still expected of it holds no white space.\<close>

fun literalOk :: "lexMode \<times> token list \<Rightarrow> bool" where
  "literalOk (LLiteral rest tok, toks) = (\<forall>r \<in> set rest. \<not> isWhiteSpace r)"
| "literalOk _ = True"

text \<open>
  The parser. A frame is an open array with the elements read so far, or an open object with
  the members read so far and the key that waits for its value.
\<close>

datatype frame =
    FArray "json list"
  | FObject "(nat list \<times> json) list" "nat list option"

datatype parseMode =
    PValue | PArrayStart | PObjectStart | PKey | PColon | PAfter | PDone json

fun complete :: "json \<Rightarrow> frame list \<Rightarrow> (parseMode \<times> frame list) option" where
  "complete v [] = Some (PDone v, [])"
| "complete v (FArray es # fs) = Some (PAfter, FArray (es @ [v]) # fs)"
| "complete v (FObject ms (Some k) # fs) = Some (PAfter, FObject (ms @ [(k, v)]) None # fs)"
| "complete v (FObject ms None # fs) = None"

fun beginValue :: "frame list \<Rightarrow> token \<Rightarrow> (parseMode \<times> frame list) option" where
  "beginValue fs TLBrace = Some (PObjectStart, FObject [] None # fs)"
| "beginValue fs TLBracket = Some (PArrayStart, FArray [] # fs)"
| "beginValue fs (TString s) = complete (JString s) fs"
| "beginValue fs (TNumber n) = complete (JNumber n) fs"
| "beginValue fs TTrue = complete (JBool True) fs"
| "beginValue fs TFalse = complete (JBool False) fs"
| "beginValue fs TNull = complete JNull fs"
| "beginValue fs _ = None"

fun closeArray :: "frame list \<Rightarrow> (parseMode \<times> frame list) option" where
  "closeArray (FArray es # fs) = complete (JArray es) fs"
| "closeArray _ = None"

fun closeObject :: "frame list \<Rightarrow> (parseMode \<times> frame list) option" where
  "closeObject (FObject ms None # fs) = complete (JObject ms) fs"
| "closeObject _ = None"

fun readKey :: "frame list \<Rightarrow> token \<Rightarrow> (parseMode \<times> frame list) option" where
  "readKey (FObject ms None # fs) (TString k) = Some (PColon, FObject ms (Some k) # fs)"
| "readKey _ _ = None"

fun afterValue :: "frame list \<Rightarrow> token \<Rightarrow> (parseMode \<times> frame list) option" where
  "afterValue (FArray es # fs) TComma = Some (PValue, FArray es # fs)"
| "afterValue (FArray es # fs) TRBracket = closeArray (FArray es # fs)"
| "afterValue (FObject ms None # fs) TComma = Some (PKey, FObject ms None # fs)"
| "afterValue (FObject ms None # fs) TRBrace = closeObject (FObject ms None # fs)"
| "afterValue _ _ = None"

fun parseStep :: "parseMode \<times> frame list \<Rightarrow> token \<Rightarrow> (parseMode \<times> frame list) option" where
  "parseStep (PValue, fs) t = beginValue fs t"
| "parseStep (PArrayStart, fs) t = (if t = TRBracket then closeArray fs else beginValue fs t)"
| "parseStep (PObjectStart, fs) t = (if t = TRBrace then closeObject fs else readKey fs t)"
| "parseStep (PKey, fs) t = readKey fs t"
| "parseStep (PColon, fs) t = (if t = TColon then Some (PValue, fs) else None)"
| "parseStep (PAfter, fs) t = afterValue fs t"
| "parseStep (PDone v, fs) t = None"

fun parseRun :: "parseMode \<times> frame list \<Rightarrow> token list \<Rightarrow> json option" where
  "parseRun (PDone v, fs) [] = Some v"
| "parseRun (_, fs) [] = None"
| "parseRun st (t # ts) = (case parseStep st t of None \<Rightarrow> None | Some st' \<Rightarrow> parseRun st' ts)"

text \<open>\<^verbatim>\<open>JSON.parse(text)\<close>; \<open>None\<close> is the SyntaxError it throws.\<close>

definition JSON_parse :: "string \<Rightarrow> json option" where
  "JSON_parse s = (case tokenize s of None \<Rightarrow> None | Some ts \<Rightarrow> parseRun (PValue, []) ts)"

section \<open>The data of the upload dialog\<close>

text \<open>The selected \<^verbatim>\<open>File\<close>: its name, media type, length in bytes and content.\<close>

record File =
  file_name :: string
  file_type :: string
  file_size :: nat
  arrayBuffer :: "8 word list"

text \<open>
  What the PDF library hands back for a document it could open: the pages in order, each
  page the \<^verbatim>\<open>str\<close> of its text items in order. A document with a page that cannot be
  read counts as one that the library rejects.
\<close>

type_synonym PDFDocument = "string list list"

text \<open>One entry of \<^verbatim>\<open>tests\<close> in the interface \<^verbatim>\<open>GeminiAnalysis\<close>.\<close>

datatype Status = LOW | HIGH

record TestEntry =
  t_parameter :: string
  t_value :: string
  t_unit :: string
  t_reference_range :: string
  t_status :: Status

text \<open>The interface \<^verbatim>\<open>GeminiAnalysis\<close>: every field is optional.\<close>

record GeminiAnalysis =
  report_title :: "string option"
  doctor_name :: "string option"
  report_date :: "string option"
  tests :: "TestEntry list option"
  summary :: "string option"

text \<open>
  The variable \<^verbatim>\<open>parsedAnalysis\<close>, declared \<^verbatim>\<open>GeminiAnalysis | null\<close>. \<^verbatim>\<open>JSON.parse\<close> is not
  bound by that declaration; a value it returns outside the declared type is kept apart as
  \<open>Untyped\<close>, and what the dialog does with such a value is not part of this development.
\<close>

datatype ParsedAnalysis = Null | Analysis GeminiAnalysis | Untyped json

text \<open>The object stored under \<^verbatim>\<open>aiAnalysis\<close> in the database record.\<close>

record AiAnalysis =
  reportTitle :: string
  doctorName :: string
  reportDate :: string
  aiTests :: "TestEntry list"
  aiSummary :: string
  processedAt :: string

text \<open>
  The object \<^verbatim>\<open>documentData\<close> handed to the database. A field that the code assigns only
  on some paths is optional here, \<open>None\<close> where the object has no such property.
\<close>

datatype FieldValue = ServerTimestamp

record DocumentData =
  title :: string
  fileUrl :: string
  fileName :: string
  fileType :: string
  fileSize :: nat
  userId :: string
  uploadedAt :: FieldValue
  createdAt :: string
  extractedText :: "string option"
  aiAnalysis :: "AiAnalysis option"
  anomalies :: "string list option"
  hasAnomalies :: "bool option"
  anomalyCount :: "nat option"
  category :: string
  processingStatus :: string

text \<open>Values thrown inside the dialog, by where they come from.\<close>

datatype error =
    SupabaseNotConfigured
  | GeminiApiKeyMissing
  | PdfError string
  | GeminiError string
  | StorageError string
  | FirestoreError string

text \<open>
  Everything outside the component: the configuration read at module load, the PDF library,
  the generative-text service, local storage, the clock, the object store and the database.
  A collaborator that can fail returns its error message on the left.
\<close>

record Env =
  supabaseConfigured :: bool
  geminiApiKey :: string
  defaultPrompt :: string
  getDocument :: "8 word list \<Rightarrow> string + PDFDocument"
  generateContent :: "string \<Rightarrow> string \<Rightarrow> string + string"
  localStorageUserId :: "string option"
  dateNow :: nat
  createdAtClock :: string
  processedAtClock :: string
  storageUpload :: "string \<Rightarrow> File \<Rightarrow> string option"
  getPublicUrl :: "string \<Rightarrow> string"
  addDoc :: "DocumentData \<Rightarrow> string + string"

text \<open>The component state that the two handlers read and write.\<close>

record State =
  selectedFile :: "File option"
  documentTitle :: string
  uploading :: bool
  uploadProgress :: string
  aiOutput :: "string option"
  extractedTextState :: "string option"

datatype toast =
    FileTooLarge | InvalidFileType | MissingInformation | AIAnalysisWarning
  | UploadSuccessful | FirestoreSaveFailed | UploadFailed

text \<open>What a handler does that is seen from outside, in the order it does it.\<close>

datatype event =
    Toast toast
  | SetUploadProgress string
  | ExtractTextFromPdf File
  | RunGeminiAnalysis string
  | StorageUpload string
  | AddDoc DocumentData

datatype outcome = Rejected | Failed error | Done string | OutsideDeclaredType

record Run =
  events :: "event list"
  outcome :: outcome
  finalState :: State

section \<open>Text extraction\<close>

definition pageHeader :: "nat \<Rightarrow> string" where
  "pageHeader pageNum = NL @ NL @ ''=== Page '' @ numberToString pageNum @ '' ==='' @ NL"

text \<open>The \<^verbatim>\<open>for\<close> loop of \<^verbatim>\<open>extractTextFromPdf\<close>, from \<open>pageNum\<close> on, with the text so far.\<close>

function extractPages :: "PDFDocument \<Rightarrow> nat \<Rightarrow> string \<Rightarrow> string" where
  "extractPages pdf pageNum fullText =
     (if pageNum \<le> length pdf
      then extractPages pdf (pageNum + 1)
             (fullText @ pageHeader pageNum @ join '' '' (pdf ! (pageNum - 1)))
      else fullText)"
  by pat_completeness auto
termination
  by (relation "measure (\<lambda>(pdf, pageNum, fullText). Suc (length pdf) - pageNum)") auto

definition extractTextFromPdf :: "Env \<Rightarrow> File \<Rightarrow> error + string" where
  "extractTextFromPdf env file =
     (case getDocument env (arrayBuffer file) of
        Inl msg \<Rightarrow> Inl (PdfError msg)
      | Inr pdf \<Rightarrow> Inr (trim (extractPages pdf 1 [])))"

section \<open>Analysis\<close>

definition runGeminiAnalysis :: "Env \<Rightarrow> string \<Rightarrow> string option \<Rightarrow> error + string" where
  "runGeminiAnalysis env text customPrompt =
     (if geminiApiKey env = [] then Inl GeminiApiKeyMissing
      else
        let prompt = (case customPrompt of
                        None \<Rightarrow> defaultPrompt env
                      | Some p \<Rightarrow> if trim p = [] then defaultPrompt env else trim p)
        in (case generateContent env prompt
                  (NL @ NL @ ''Document Text:'' @ NL @ take 60000 text) of
              Inl msg \<Rightarrow> Inl (GeminiError msg)
            | Inr out \<Rightarrow> Inr out))"

text \<open>The removal of a Markdown code fence before parsing.\<close>

definition cleanJson :: "string \<Rightarrow> string" where
  "cleanJson raw =
     (let cleanedJson = trim raw in
      if startsWith cleanedJson (FENCE @ ''json'')
      then replaceFenceAtEnd (replaceAllOptNL (FENCE @ ''json'') cleanedJson)
      else if startsWith cleanedJson FENCE
      then replaceAllOptNL FENCE cleanedJson
      else cleanedJson)"

text \<open>
  Reading a parsed value at the declared type. A property that is missing or \<^verbatim>\<open>null\<close> is
  \<open>None\<close>: the dialog tests these fields for truthiness only. The last of several members
  with one key is the one the object holds.
\<close>

datatype 'a typed = Typed 'a | Mismatch

definition property :: "(nat list \<times> json) list \<Rightarrow> string \<Rightarrow> json option" where
  "property ms k = map_of (rev ms) (map of_char k)"

definition asString :: "nat list \<Rightarrow> string typed" where
  "asString ns = (if \<forall>n \<in> set ns. n < 256 then Typed (map char_of ns) else Mismatch)"

definition optionalString :: "(nat list \<times> json) list \<Rightarrow> string \<Rightarrow> string option typed" where
  "optionalString ms k =
     (case property ms k of
        None \<Rightarrow> Typed None
      | Some JNull \<Rightarrow> Typed None
      | Some (JString ns) \<Rightarrow> (case asString ns of Typed s \<Rightarrow> Typed (Some s) | Mismatch \<Rightarrow> Mismatch)
      | Some _ \<Rightarrow> Mismatch)"

definition requiredString :: "(nat list \<times> json) list \<Rightarrow> string \<Rightarrow> string typed" where
  "requiredString ms k =
     (case property ms k of
        Some (JString ns) \<Rightarrow> asString ns
      | _ \<Rightarrow> Mismatch)"

definition asStatus :: "string typed \<Rightarrow> Status typed" where
  "asStatus s =
     (if s = Typed ''LOW'' then Typed LOW else if s = Typed ''HIGH'' then Typed HIGH
      else Mismatch)"

fun asTestEntry :: "json \<Rightarrow> TestEntry typed" where
  "asTestEntry (JObject ms) =
     (case (requiredString ms ''parameter'', requiredString ms ''value'',
            requiredString ms ''unit'', requiredString ms ''reference_range'',
            asStatus (requiredString ms ''status'')) of
        (Typed p, Typed v, Typed u, Typed r, Typed s) \<Rightarrow>
          Typed \<lparr>t_parameter = p, t_value = v, t_unit = u, t_reference_range = r, t_status = s\<rparr>
      | _ \<Rightarrow> Mismatch)"
| "asTestEntry _ = Mismatch"

fun asTestEntries :: "json list \<Rightarrow> TestEntry list typed" where
  "asTestEntries [] = Typed []"
| "asTestEntries (j # js) =
     (case (asTestEntry j, asTestEntries js) of
        (Typed t, Typed ts) \<Rightarrow> Typed (t # ts)
      | _ \<Rightarrow> Mismatch)"

definition optionalTests :: "(nat list \<times> json) list \<Rightarrow> TestEntry list option typed" where
  "optionalTests ms =
     (case property ms ''tests'' of
        None \<Rightarrow> Typed None
      | Some JNull \<Rightarrow> Typed None
      | Some (JArray js) \<Rightarrow> (case asTestEntries js of Typed ts \<Rightarrow> Typed (Some ts) | Mismatch \<Rightarrow> Mismatch)
      | Some _ \<Rightarrow> Mismatch)"

fun asGeminiAnalysis :: "json \<Rightarrow> ParsedAnalysis" where
  "asGeminiAnalysis JNull = Null"
| "asGeminiAnalysis (JObject ms) =
     (case (optionalString ms ''report_title'', optionalString ms ''doctor_name'',
            optionalString ms ''report_date'', optionalTests ms,
            optionalString ms ''summary'') of
        (Typed t, Typed d, Typed r, Typed ts, Typed s) \<Rightarrow>
          Analysis \<lparr>report_title = t, doctor_name = d, report_date = r, tests = ts, summary = s\<rparr>
      | _ \<Rightarrow> Untyped (JObject ms))"
| "asGeminiAnalysis j = Untyped j"

text \<open>The inner \<^verbatim>\<open>try\<close> of \<^verbatim>\<open>handleUpload\<close>: the model output becomes \<^verbatim>\<open>parsedAnalysis\<close>.\<close>

definition parseAnalysis :: "string \<Rightarrow> ParsedAnalysis" where
  "parseAnalysis raw =
     (case JSON_parse (cleanJson raw) of
        Some j \<Rightarrow> asGeminiAnalysis j
      | None \<Rightarrow> Analysis \<lparr>report_title = None, doctor_name = None, report_date = None,
                          tests = None, summary = Some raw\<rparr>)"

section \<open>Selecting a file\<close>

definition allowedTypes :: "string list" where
  "allowedTypes = [''application/pdf'', ''image/jpeg'', ''image/png'', ''image/jpg'']"

definition handleFileChange :: "State \<Rightarrow> File option \<Rightarrow> State \<times> event list" where
  "handleFileChange st picked =
     (case picked of
        None \<Rightarrow> (st, [])
      | Some file \<Rightarrow>
          if file_size file > 10 * 1024 * 1024 then (st, [Toast FileTooLarge])
          else if file_type file \<notin> set allowedTypes then (st, [Toast InvalidFileType])
          else (st\<lparr>selectedFile := Some file,
                    documentTitle := (if documentTitle st = []
                                      then removeExtension (file_name file)
                                      else documentTitle st)\<rparr>, []))"

section \<open>The database record\<close>

text \<open>\<^verbatim>\<open>x || d\<close> for an optional string \<open>x\<close>: missing and empty both give the default.\<close>

definition orDefault :: "string option \<Rightarrow> string \<Rightarrow> string" where
  "orDefault x d = (case x of None \<Rightarrow> d | Some v \<Rightarrow> if v = [] then d else v)"

definition statusText :: "Status \<Rightarrow> string" where
  "statusText st = (case st of LOW \<Rightarrow> ''LOW'' | HIGH \<Rightarrow> ''HIGH'')"

definition anomalyLine :: "TestEntry \<Rightarrow> string" where
  "anomalyLine test =
     t_parameter test @ '': '' @ t_value test @ '' '' @ t_unit test @
     '' ('' @ statusText (t_status test) @ '')''"

text \<open>The chain of tests on the lower-cased title, lines 404 to 416.\<close>

definition categoryFor :: "string \<Rightarrow> string" where
  "categoryFor lowered =
     (if includes_str lowered ''blood'' then ''Blood Test''
      else if includes_str lowered ''kidney'' then ''Kidney Function''
      else if includes_str lowered ''liver'' then ''Liver Function''
      else if includes_str lowered ''thyroid'' then ''Thyroid''
      else if includes_str lowered ''prescription'' then ''Prescription''
      else ''General Medical Report'')"

text \<open>\<^verbatim>\<open>parsedAnalysis.report_title?.toLowerCase() || ""\<close>\<close>

definition loweredReportTitle :: "GeminiAnalysis \<Rightarrow> string" where
  "loweredReportTitle a = orDefault (map_option toLowerCase (report_title a)) []"

definition userIdOf :: "Env \<Rightarrow> string" where
  "userIdOf env = orDefault (localStorageUserId env) ''anonymous''"

definition storageKey :: "Env \<Rightarrow> string \<Rightarrow> File \<Rightarrow> string" where
  "storageKey env docTitle file =
     userIdOf env @ ''/'' @ numberToString (dateNow env) @ ''-'' @ replaceSpaces docTitle @
     ''.'' @ fileExtension (file_name file)"

text \<open>
  Lines 362 to 422: the record as it stands when it is handed to the database, for a
  \<^verbatim>\<open>parsedAnalysis\<close> that is \<^verbatim>\<open>null\<close> (\<open>None\<close>) or an object of the declared type.
\<close>

definition documentDataOf ::
  "Env \<Rightarrow> string \<Rightarrow> File \<Rightarrow> string option \<Rightarrow> GeminiAnalysis option \<Rightarrow> DocumentData" where
  "documentDataOf env docTitle file extracted parsed =
     (let base = \<lparr>title = docTitle,
                   fileUrl = getPublicUrl env (storageKey env docTitle file),
                   fileName = storageKey env docTitle file,
                   fileType = file_type file,
                   fileSize = file_size file,
                   userId = userIdOf env,
                   uploadedAt = ServerTimestamp,
                   createdAt = createdAtClock env,
                   extractedText = (case extracted of
                                      None \<Rightarrow> None
                                    | Some t \<Rightarrow> if t = [] then None else Some t),
                   aiAnalysis = None, anomalies = None, hasAnomalies = None,
                   anomalyCount = None, category = [], processingStatus = []\<rparr>
      in case parsed of
           Some a \<Rightarrow>
             (let d1 = base\<lparr>aiAnalysis := Some
                         \<lparr>reportTitle = orDefault (report_title a) docTitle,
                          doctorName = orDefault (doctor_name a) ''Not specified'',
                          reportDate = orDefault (report_date a) ''Not specified'',
                          aiTests = (case tests a of None \<Rightarrow> [] | Some ts \<Rightarrow> ts),
                          aiSummary = orDefault (summary a) ''No summary available'',
                          processedAt = processedAtClock env\<rparr>\<rparr>;
                  d2 = (case tests a of
                          Some (t # ts) \<Rightarrow>
                            d1\<lparr>anomalies := Some (map anomalyLine (t # ts)),
                               hasAnomalies := Some True,
                               anomalyCount := Some (length (t # ts))\<rparr>
                        | _ \<Rightarrow>
                            d1\<lparr>anomalies := Some [], hasAnomalies := Some False,
                               anomalyCount := Some 0\<rparr>)
              in d2\<lparr>category := categoryFor (loweredReportTitle a),
                    processingStatus := ''completed''\<rparr>)
         | None \<Rightarrow>
             base\<lparr>processingStatus := ''uploaded_without_analysis'',
                  category := ''Uncategorized''\<rparr>)"

section \<open>The upload handler\<close>

definition uploadFailed :: "State \<Rightarrow> event list \<Rightarrow> error \<Rightarrow> Run" where
  "uploadFailed st evs e =
     \<lparr>events = evs @ [Toast UploadFailed, SetUploadProgress []],
      outcome = Failed e,
      finalState = st\<lparr>uploading := False, uploadProgress := []\<rparr>\<rparr>"

text \<open>Lines 295 to 323: the analysis and what it leaves in \<^verbatim>\<open>parsedAnalysis\<close>.\<close>

definition analysisStep :: "Env \<Rightarrow> string \<Rightarrow> event list \<times> ParsedAnalysis" where
  "analysisStep env text =
     (case runGeminiAnalysis env text None of
        Inr raw \<Rightarrow>
          ([SetUploadProgress ''Analyzing with Gemini AI...'', RunGeminiAnalysis text],
           parseAnalysis raw)
      | Inl e \<Rightarrow>
          ([SetUploadProgress ''Analyzing with Gemini AI...'', RunGeminiAnalysis text,
            Toast AIAnalysisWarning], Null))"

text \<open>Lines 326 to 453: the upload, the record and the database write.\<close>

definition storeAndSave ::
  "Env \<Rightarrow> State \<Rightarrow> File \<Rightarrow> event list \<Rightarrow> string option \<Rightarrow> ParsedAnalysis \<Rightarrow> Run" where
  "storeAndSave env st file evs extracted parsed =
     (let key = storageKey env (documentTitle st) file;
          evs1 = evs @ [SetUploadProgress ''Uploading file to storage...'', StorageUpload key]
      in case storageUpload env key file of
           Some msg \<Rightarrow> uploadFailed st evs1 (StorageError msg)
         | None \<Rightarrow>
             (case parsed of
                Untyped j \<Rightarrow>
                  \<lparr>events = evs1, outcome = OutsideDeclaredType, finalState = st\<rparr>
              | _ \<Rightarrow>
                  (let d = documentDataOf env (documentTitle st) file extracted
                             (case parsed of Analysis a \<Rightarrow> Some a | _ \<Rightarrow> None);
                       evs2 = evs1 @ [SetUploadProgress
                                        ''Saving document metadata to Firestore...'',
                                      AddDoc d]
                   in case addDoc env d of
                        Inl msg \<Rightarrow>
                          uploadFailed st (evs2 @ [Toast FirestoreSaveFailed])
                            (FirestoreError msg)
                      | Inr docId \<Rightarrow>
                          \<lparr>events = evs2 @ [Toast UploadSuccessful, SetUploadProgress [],
                                             SetUploadProgress []],
                           outcome = Done docId,
                           finalState = st\<lparr>selectedFile := None, documentTitle := [],
                                           uploading := False, uploadProgress := [],
                                           aiOutput := None,
                                           extractedTextState := None\<rparr>\<rparr>)))"

definition handleUpload :: "Env \<Rightarrow> State \<Rightarrow> Run" where
  "handleUpload env st =
     (case selectedFile st of
        None \<Rightarrow> \<lparr>events = [Toast MissingInformation], outcome = Rejected, finalState = st\<rparr>
      | Some file \<Rightarrow>
          if trim (documentTitle st) = []
          then \<lparr>events = [Toast MissingInformation], outcome = Rejected, finalState = st\<rparr>
          else if \<not> supabaseConfigured env then uploadFailed st [] SupabaseNotConfigured
          else if file_type file = ''application/pdf''
          then (let evs = [SetUploadProgress ''Extracting text from PDF...'',
                           ExtractTextFromPdf file]
                in case extractTextFromPdf env file of
                     Inl e \<Rightarrow> uploadFailed st evs e
                   | Inr text \<Rightarrow>
                       (case analysisStep env text of
                          (evs', parsed) \<Rightarrow>
                            storeAndSave env st file (evs @ evs') (Some text) parsed))
          else storeAndSave env st file [] None Null)"

section \<open>The specification's wording, as definitions\<close>

text \<open>
  The extracted text as the specification describes it: one segment per page, tagged with
  the page number counted from 1, the page's text items joined by single spaces.
\<close>

definition pageSegments :: "PDFDocument \<Rightarrow> string list" where
  "pageSegments pdf =
     map (\<lambda>(n, items). NL @ NL @ ''=== Page '' @ numberToString n @ '' ==='' @ NL @
                         join '' '' items)
       (enumerate 1 pdf)"

text \<open>The ordered keyword rules of the category, first match wins.\<close>

definition categoryRules :: "(string \<times> string) list" where
  "categoryRules =
     [(''blood'', ''Blood Test''), (''kidney'', ''Kidney Function''),
      (''liver'', ''Liver Function''), (''thyroid'', ''Thyroid''),
      (''prescription'', ''Prescription'')]"

definition categoryByRules :: "string \<Rightarrow> string" where
  "categoryByRules reportTitleText =
     (case find (\<lambda>(keyword, c). includes_str (toLowerCase reportTitleText) keyword)
             categoryRules of
        Some (keyword, c) \<Rightarrow> c
      | None \<Rightarrow> ''General Medical Report'')"

text \<open>The records that a run handed to the database, in order.\<close>

fun addedDocs :: "event list \<Rightarrow> DocumentData list" where
  "addedDocs [] = []"
| "addedDocs (AddDoc d # evs) = d # addedDocs evs"
| "addedDocs (_ # evs) = addedDocs evs"

section \<open>Sample inputs\<close>

definition sampleFile :: File where
  "sampleFile =
     \<lparr>file_name = ''report.pdf'', file_type = ''application/pdf'', file_size = 2048,
      arrayBuffer = [37, 80, 68, 70]\<rparr>"

definition sampleState :: State where
  "sampleState =
     \<lparr>selectedFile = Some sampleFile, documentTitle = ''Blood work'', uploading = False,
      uploadProgress = [], aiOutput = None, extractedTextState = None\<rparr>"

definition sampleOutput :: string where
  "sampleOutput = ''{\"summary\": \"Low iron.\"}''"

text \<open>Two well-formed outputs whose summary holds a fence.\<close>

definition fenceInSummary :: string where
  "fenceInSummary = ''{\"summary\": \"a'' @ FENCE @ ''b\"}''"

definition taggedFenceInSummary :: string where
  "taggedFenceInSummary = ''{\"summary\": \"a'' @ FENCE @ ''jsonb\"}''"

definition sampleEnv :: Env where
  "sampleEnv =
     \<lparr>supabaseConfigured = True,
      geminiApiKey = ''key'',
      defaultPrompt = ''Analyze the report.'',
      getDocument = (\<lambda>b. Inr [[''Hb'', ''low''], []]),
      generateContent = (\<lambda>p t. Inr sampleOutput),
      localStorageUserId = Some ''u1'',
      dateNow = 1700000000000,
      createdAtClock = ''2023-11-14T22:13:20.000Z'',
      processedAtClock = ''2023-11-14T22:13:21.000Z'',
      storageUpload = (\<lambda>k f. None),
      getPublicUrl = (\<lambda>k. ''https://store/'' @ k),
      addDoc = (\<lambda>d. Inr ''doc1'')\<rparr>"

section \<open>Properties of text extraction\<close>

declare numberToString.simps [simp del]
declare extractPages.simps [simp del]
declare replaceAllOptNL.simps [simp del]
declare replaceSpaces.simps [simp del]

lemma extractPages_unfold:
  "extractPages pdf i acc =
     acc @ concat (map (\<lambda>n. pageHeader n @ join '' '' (pdf ! (n - 1))) [i..<Suc (length pdf)])"
proof (induction pdf i acc rule: extractPages.induct)
  case (1 pdf pageNum fullText)
  show ?case
  proof (cases "pageNum \<le> length pdf")
    case True
    then have "[pageNum..<Suc (length pdf)] = pageNum # [Suc pageNum..<Suc (length pdf)]"
      by (simp add: upt_conv_Cons)
    with True 1 show ?thesis
      by (subst extractPages.simps) simp
  next
    case False
    then show ?thesis
      by (subst extractPages.simps) simp
  qed
qed

lemma pageSegments_nth:
  "pageSegments pdf =
     map (\<lambda>n. pageHeader n @ join '' '' (pdf ! (n - 1))) [1..<Suc (length pdf)]"
  by (rule nth_equalityI)
     (simp_all add: pageSegments_def pageHeader_def nth_enumerate_eq del: upt_Suc)

lemma extractTextFromPdf_segments:
  assumes "getDocument env (arrayBuffer file) = Inr pdf"
  shows "extractTextFromPdf env file = Inr (trim (concat (pageSegments pdf)))"
  using assms
  by (simp add: extractTextFromPdf_def extractPages_unfold pageSegments_nth del: upt_Suc)

lemma trim_Nil_iff: "trim s = [] \<longleftrightarrow> (\<forall>c \<in> set s. isWhiteSpace c)"
proof
  assume "trim s = []"
  then have "\<forall>c \<in> set (dropWhile isWhiteSpace s). isWhiteSpace c"
    by (simp add: trim_def dropWhile_eq_Nil_conv)
  moreover have "set s = set (takeWhile isWhiteSpace s) \<union> set (dropWhile isWhiteSpace s)"
    by (metis set_append takeWhile_dropWhile_id)
  ultimately show "\<forall>c \<in> set s. isWhiteSpace c"
    by (auto dest: set_takeWhileD)
next
  assume "\<forall>c \<in> set s. isWhiteSpace c"
  then show "trim s = []"
    by (auto simp: trim_def dropWhile_eq_Nil_conv dest: set_dropWhileD)
qed

lemma pageHeader_not_blank: "\<exists>c \<in> set (pageHeader n). \<not> isWhiteSpace c"
  by (rule bexI[of _ "CHR ''=''"]) (simp_all add: pageHeader_def isWhiteSpace_def)

text \<open>
  Claim C5, as the code has it. For every document that the PDF library opens, extraction
  returns a text and no error. The text is empty exactly when the document has no page: a
  document with pages and no text on them yields its page headers.
\<close>

theorem extractTextFromPdf_empty_iff_no_page:
  assumes "getDocument env (arrayBuffer file) = Inr pdf"
  shows "\<exists>t. extractTextFromPdf env file = Inr t \<and> (t = [] \<longleftrightarrow> pdf = [])"
proof (cases pdf)
  case Nil
  with assms show ?thesis
    by (simp add: extractTextFromPdf_segments pageSegments_def trim_def)
next
  case (Cons p ps)
  obtain c where c: "c \<in> set (pageHeader 1)" "\<not> isWhiteSpace c"
    using pageHeader_not_blank by blast
  have "c \<in> set (concat (pageSegments pdf))"
    using c(1) Cons by (simp add: pageSegments_nth upt_conv_Cons del: upt_Suc)
  with c(2) have "trim (concat (pageSegments pdf)) \<noteq> []"
    using trim_Nil_iff by blast
  with assms Cons show ?thesis
    by (simp add: extractTextFromPdf_segments)
qed

theorem extractTextFromPdf_empty_iff_no_page_witness:
  "extractTextFromPdf (sampleEnv\<lparr>getDocument := (\<lambda>b. Inr [])\<rparr>) sampleFile = Inr []"
proof -
  have h: "getDocument (sampleEnv\<lparr>getDocument := (\<lambda>b. Inr [])\<rparr>) (arrayBuffer sampleFile)
             = Inr []"
    by simp
  show ?thesis
    using extractTextFromPdf_empty_iff_no_page [OF h] by auto
qed

text \<open>
  Claim C5 as stated fails: a document of one page without any text item is text-free, and
  its extracted text is the header of that page, not the empty string.
\<close>

theorem extractTextFromPdf_text_free_counterexample:
  "extractTextFromPdf (sampleEnv\<lparr>getDocument := (\<lambda>b. Inr [[]])\<rparr>) sampleFile
     = Inr ''=== Page 1 ===''"
proof -
  have "trim (extractPages [[]] 1 []) = ''=== Page 1 ===''"
    by code_simp
  then show ?thesis
    by (simp add: extractTextFromPdf_def)
qed

text \<open>
  Claim C6. For every document that the PDF library opens, the extracted text is the trimmed
  concatenation of one segment per page, in page order from 1: the header
  \<^verbatim>\<open>=== Page N ===\<close> between line feeds, then the page's text items joined by single spaces.
  Two files with the same bytes give the same result.
\<close>

theorem extractTextFromPdf_one_header_per_page:
  assumes "getDocument env (arrayBuffer file) = Inr pdf"
  shows "extractTextFromPdf env file = Inr (trim (concat (pageSegments pdf)))
         \<and> length (pageSegments pdf) = length pdf
         \<and> map fst (enumerate 1 pdf) = [1..<Suc (length pdf)]
         \<and> (\<forall>file'. arrayBuffer file' = arrayBuffer file \<longrightarrow>
                extractTextFromPdf env file' = extractTextFromPdf env file)"
proof (intro conjI allI impI)
  show "extractTextFromPdf env file = Inr (trim (concat (pageSegments pdf)))"
    using assms by (rule extractTextFromPdf_segments)
  show "length (pageSegments pdf) = length pdf"
    by (simp add: pageSegments_def)
  show "map fst (enumerate 1 pdf) = [1..<Suc (length pdf)]"
    by (simp del: upt_Suc)
  show "extractTextFromPdf env file' = extractTextFromPdf env file"
    if "arrayBuffer file' = arrayBuffer file" for file'
    using that by (simp add: extractTextFromPdf_def)
qed

theorem extractTextFromPdf_one_header_per_page_witness:
  "extractTextFromPdf sampleEnv sampleFile
     = Inr ''=== Page 1 ===\<newline>Hb low\<newline>\<newline>=== Page 2 ===''
   \<and> length (pageSegments [[''Hb'', ''low''], []]) = 2
   \<and> extractTextFromPdf sampleEnv (sampleFile\<lparr>file_name := ''copy.pdf''\<rparr>)
       = extractTextFromPdf sampleEnv sampleFile"
proof -
  have h: "getDocument sampleEnv (arrayBuffer sampleFile) = Inr [[''Hb'', ''low''], []]"
    by (simp add: sampleEnv_def)
  have e: "trim (concat (pageSegments [[''Hb'', ''low''], []]))
             = ''=== Page 1 ===\<newline>Hb low\<newline>\<newline>=== Page 2 ===''"
    by code_simp
  have b: "arrayBuffer (sampleFile\<lparr>file_name := ''copy.pdf''\<rparr>) = arrayBuffer sampleFile"
    by simp
  show ?thesis
    using extractTextFromPdf_one_header_per_page [OF h] e b by simp
qed


section \<open>Properties of the database record\<close>

lemma loweredReportTitle_eq:
  "loweredReportTitle a = toLowerCase (case report_title a of None \<Rightarrow> [] | Some t \<Rightarrow> t)"
  by (simp add: loweredReportTitle_def orDefault_def toLowerCase_def split: option.splits)

lemma categoryFor_rules: "categoryFor (toLowerCase t) = categoryByRules t"
  by (simp add: categoryFor_def categoryByRules_def categoryRules_def)

lemma category_documentDataOf:
  "category (documentDataOf env docTitle file extracted (Some a))
     = categoryFor (loweredReportTitle a)"
  by (simp add: documentDataOf_def Let_def split: option.splits list.splits)

lemma includes_str_sublist: "includes_str s p \<longleftrightarrow> sublist p s"
  by (induction s) (auto simp: sublist_Cons_right)

text \<open>
  Claim C7. The category of an analysed record depends on the analysis only through its
  \<^verbatim>\<open>report_title\<close> (the empty string when absent): it is the category of the first rule, in
  the order blood, kidney, liver, thyroid, prescription, whose keyword occurs in the
  lower-cased title, and \<^verbatim>\<open>General Medical Report\<close> when no keyword occurs.
\<close>

theorem category_by_ordered_rules:
  "category (documentDataOf env docTitle file extracted (Some a))
     = categoryByRules (case report_title a of None \<Rightarrow> [] | Some t \<Rightarrow> t)"
  by (simp add: category_documentDataOf loweredReportTitle_eq categoryFor_rules)

lemma category_examples:
  "categoryByRules ''Kidney Function Test Report'' = ''Kidney Function''"
  "categoryByRules ''Annual check-up'' = ''General Medical Report''"
  "categoryByRules ''LIVER and blood panel'' = ''Blood Test''"
  by code_simp+

text \<open>
  Claim C8. For an analysed record, \<^verbatim>\<open>anomalies\<close> lists one line
  \<^verbatim>\<open>parameter: value unit (status)\<close> per entry of \<^verbatim>\<open>tests\<close>, in the same order;
  \<^verbatim>\<open>anomalyCount\<close> is the number of entries and \<^verbatim>\<open>hasAnomalies\<close> says whether it is
  positive.
\<close>

theorem anomalies_rendered_in_order:
  "anomalies (documentDataOf env docTitle file extracted (Some a))
     = Some (map (\<lambda>t. t_parameter t @ '': '' @ t_value t @ '' '' @ t_unit t @
                        '' ('' @ statusText (t_status t) @ '')'')
               (case tests a of None \<Rightarrow> [] | Some ts \<Rightarrow> ts))
   \<and> anomalyCount (documentDataOf env docTitle file extracted (Some a))
     = Some (length (case tests a of None \<Rightarrow> [] | Some ts \<Rightarrow> ts))
   \<and> hasAnomalies (documentDataOf env docTitle file extracted (Some a))
     = Some (0 < length (case tests a of None \<Rightarrow> [] | Some ts \<Rightarrow> ts))
   \<and> map_option aiTests (aiAnalysis (documentDataOf env docTitle file extracted (Some a)))
     = Some (case tests a of None \<Rightarrow> [] | Some ts \<Rightarrow> ts)"
  by (simp add: documentDataOf_def Let_def anomalyLine_def split: option.splits list.splits)

text \<open>
  Claim C10. When the analysis has no \<^verbatim>\<open>report_title\<close>, the category is
  \<^verbatim>\<open>General Medical Report\<close>, whatever the document title, although the stored
  \<^verbatim>\<open>reportTitle\<close> is the document title.
\<close>

theorem category_ignores_defaulted_title:
  assumes "report_title a = None"
  shows "category (documentDataOf env docTitle file extracted (Some a))
           = ''General Medical Report''
         \<and> map_option reportTitle
             (aiAnalysis (documentDataOf env docTitle file extracted (Some a)))
           = Some docTitle"
proof -
  have "categoryFor [] = ''General Medical Report''"
    by (simp add: categoryFor_def)
  with assms show ?thesis
    by (simp add: category_documentDataOf loweredReportTitle_def orDefault_def
                  documentDataOf_def Let_def split: option.splits list.splits)
qed

theorem category_ignores_defaulted_title_witness:
  "category (documentDataOf sampleEnv ''Blood work'' sampleFile None
       (Some \<lparr>report_title = None, doctor_name = None, report_date = None, tests = None,
              summary = Some ''Low iron.''\<rparr>))
     = ''General Medical Report''
   \<and> map_option reportTitle
       (aiAnalysis (documentDataOf sampleEnv ''Blood work'' sampleFile None
          (Some \<lparr>report_title = None, doctor_name = None, report_date = None, tests = None,
                 summary = Some ''Low iron.''\<rparr>)))
     = Some ''Blood work''"
proof -
  have h: "report_title \<lparr>report_title = None, doctor_name = None, report_date = None,
                         tests = None, summary = Some ''Low iron.''\<rparr> = None"
    by simp
  show ?thesis
    using category_ignores_defaulted_title [OF h] by blast
qed


section \<open>Properties of the handlers\<close>

lemma trim_blank: "trim ''   '' = []"
  by code_simp

text \<open>
  Claim C9. Without a selected file, or with a title that is empty once trimmed, the upload
  handler shows the validation message and does nothing else. A picked file above 10 MiB, or
  of a media type that is not PDF, JPEG or PNG, is turned away by the file handler, which
  leaves the state as it was, so that the file never becomes the selected one.
\<close>

theorem invalid_input_rejected_before_pipeline:
  "(selectedFile st = None \<or> trim (documentTitle st) = [] \<longrightarrow>
      handleUpload env st
        = \<lparr>events = [Toast MissingInformation], outcome = Rejected, finalState = st\<rparr>)
   \<and> (file_size f > 10 * 1024 * 1024
        \<or> file_type f \<notin> {''application/pdf'', ''image/jpeg'', ''image/png'', ''image/jpg''} \<longrightarrow>
      fst (handleFileChange st (Some f)) = st
      \<and> (snd (handleFileChange st (Some f)) = [Toast FileTooLarge]
         \<or> snd (handleFileChange st (Some f)) = [Toast InvalidFileType]))"
  by (auto simp: handleUpload_def handleFileChange_def allowedTypes_def split: option.splits)

theorem invalid_input_rejected_before_pipeline_witness:
  "trim (documentTitle (sampleState\<lparr>documentTitle := ''   ''\<rparr>)) = []
   \<and> handleUpload sampleEnv (sampleState\<lparr>documentTitle := ''   ''\<rparr>)
       = \<lparr>events = [Toast MissingInformation], outcome = Rejected,
          finalState = sampleState\<lparr>documentTitle := ''   ''\<rparr>\<rparr>
   \<and> file_size (sampleFile\<lparr>file_size := 10485761\<rparr>) > 10 * 1024 * 1024
   \<and> fst (handleFileChange (sampleState\<lparr>documentTitle := ''   ''\<rparr>)
            (Some (sampleFile\<lparr>file_size := 10485761\<rparr>)))
       = sampleState\<lparr>documentTitle := ''   ''\<rparr>"
  using invalid_input_rejected_before_pipeline
          [of "sampleState\<lparr>documentTitle := ''   ''\<rparr>" sampleEnv
              "sampleFile\<lparr>file_size := 10485761\<rparr>"]
  by (simp add: trim_blank)

lemma addedDocs_append: "addedDocs (xs @ ys) = addedDocs xs @ addedDocs ys"
  by (induction xs rule: addedDocs.induct) simp_all

lemma addedDocs_mem: "AddDoc d \<in> set evs \<longleftrightarrow> d \<in> set (addedDocs evs)"
  by (induction evs rule: addedDocs.induct) auto

lemma addedDocs_analysisStep: "addedDocs (fst (analysisStep env text)) = []"
  by (simp add: analysisStep_def split: sum.splits)

lemma addedDocs_uploadFailed:
  "addedDocs (events (uploadFailed st evs e)) = addedDocs evs"
  by (simp add: uploadFailed_def addedDocs_append)

lemma outcome_uploadFailed: "outcome (uploadFailed st evs e) = Failed e"
  by (simp add: uploadFailed_def)

lemma storeAndSave_upload_fails:
  assumes "storageUpload env (storageKey env (documentTitle st) file) file = Some msg"
  shows "storeAndSave env st file evs extracted parsed
           = uploadFailed st
               (evs @ [SetUploadProgress ''Uploading file to storage...'',
                       StorageUpload (storageKey env (documentTitle st) file)])
               (StorageError msg)"
  using assms by (simp add: storeAndSave_def Let_def)

lemma storeAndSave_added:
  assumes "storageUpload env (storageKey env (documentTitle st) file) file = None"
    and "parsed = Null \<or> parsed = Analysis a"
  shows "addedDocs (events (storeAndSave env st file evs extracted parsed))
           = addedDocs evs @
             [documentDataOf env (documentTitle st) file extracted
                (case parsed of Analysis a \<Rightarrow> Some a | _ \<Rightarrow> None)]"
  using assms
  by (auto simp: storeAndSave_def Let_def addedDocs_append addedDocs_uploadFailed
           split: sum.splits)

lemma storeAndSave_done:
  assumes "storageUpload env (storageKey env (documentTitle st) file) file = None"
    and "parsed = Null \<or> parsed = Analysis a"
    and "addDoc env (documentDataOf env (documentTitle st) file extracted
                      (case parsed of Analysis a \<Rightarrow> Some a | _ \<Rightarrow> None)) = Inr docId"
  shows "outcome (storeAndSave env st file evs extracted parsed) = Done docId"
  using assms by (auto simp: storeAndSave_def Let_def)

lemma storeAndSave_upload_event:
  "StorageUpload (storageKey env (documentTitle st) file)
     \<in> set (events (storeAndSave env st file evs extracted parsed))"
  by (auto simp: storeAndSave_def Let_def uploadFailed_def
           split: option.splits sum.splits ParsedAnalysis.splits)

lemma handleUpload_pdf:
  assumes "selectedFile st = Some file" and "trim (documentTitle st) \<noteq> []"
    and "supabaseConfigured env" and "file_type file = ''application/pdf''"
    and "extractTextFromPdf env file = Inr text"
  shows "handleUpload env st
           = storeAndSave env st file
               ([SetUploadProgress ''Extracting text from PDF...'', ExtractTextFromPdf file]
                @ fst (analysisStep env text))
               (Some text) (snd (analysisStep env text))"
  using assms
  by (simp add: handleUpload_def Let_def split: prod.splits)

lemma handleUpload_upload_fails:
  assumes "selectedFile st = Some file"
    and "storageUpload env (storageKey env (documentTitle st) file) file = Some msg"
  shows "addedDocs (events (handleUpload env st)) = []"
    and "outcome (handleUpload env st) = Rejected
         \<or> (\<exists>e. outcome (handleUpload env st) = Failed e)"
    and "StorageUpload (storageKey env (documentTitle st) file)
           \<in> set (events (handleUpload env st))
         \<Longrightarrow> outcome (handleUpload env st) = Failed (StorageError msg)"
  using assms
  by (auto simp: handleUpload_def Let_def storeAndSave_upload_fails addedDocs_uploadFailed
                 outcome_uploadFailed addedDocs_append addedDocs_analysisStep
                 uploadFailed_def analysisStep_def
           split: sum.splits prod.splits if_splits)


text \<open>
  Claim C2. When the object store refuses the upload, the handler hands no record to the
  database: the run ends without a document identifier, and once the upload has been
  attempted it ends in the storage error.
\<close>

theorem upload_failure_writes_no_record:
  assumes "selectedFile st = Some file"
    and "storageUpload env (storageKey env (documentTitle st) file) file = Some msg"
  shows "addedDocs (events (handleUpload env st)) = []
         \<and> (\<forall>d. AddDoc d \<notin> set (events (handleUpload env st)))
         \<and> (\<forall>docId. outcome (handleUpload env st) \<noteq> Done docId)
         \<and> (StorageUpload (storageKey env (documentTitle st) file)
               \<in> set (events (handleUpload env st)) \<longrightarrow>
             outcome (handleUpload env st) = Failed (StorageError msg))"
  using handleUpload_upload_fails [OF assms]
  by (auto simp: addedDocs_mem)

lemma sample_title: "trim (documentTitle sampleState) \<noteq> []"
proof -
  have "trim ''Blood work'' = ''Blood work''"
    by code_simp
  then show ?thesis
    by (simp add: sampleState_def)
qed

lemma sample_text:
  "trim (extractPages [[''Hb'', ''low''], []] 1 [])
     = ''=== Page 1 ===\<newline>Hb low\<newline>\<newline>=== Page 2 ===''"
  by code_simp

lemma sample_extract:
  assumes "getDocument env = getDocument sampleEnv"
  shows "extractTextFromPdf env sampleFile
           = Inr ''=== Page 1 ===\<newline>Hb low\<newline>\<newline>=== Page 2 ===''"
  using assms sample_text by (simp add: extractTextFromPdf_def sampleEnv_def)

lemma handleUpload_sample:
  assumes "getDocument env = getDocument sampleEnv" and "supabaseConfigured env"
  shows "handleUpload env sampleState
           = storeAndSave env sampleState sampleFile
               ([SetUploadProgress ''Extracting text from PDF...'',
                 ExtractTextFromPdf sampleFile]
                @ fst (analysisStep env
                         ''=== Page 1 ===\<newline>Hb low\<newline>\<newline>=== Page 2 ===''))
               (Some ''=== Page 1 ===\<newline>Hb low\<newline>\<newline>=== Page 2 ==='')
               (snd (analysisStep env
                       ''=== Page 1 ===\<newline>Hb low\<newline>\<newline>=== Page 2 ===''))"
proof (rule handleUpload_pdf)
  show "selectedFile sampleState = Some sampleFile"
    by (simp add: sampleState_def)
  show "trim (documentTitle sampleState) \<noteq> []"
    by (rule sample_title)
  show "supabaseConfigured env"
    by (rule assms)
  show "file_type sampleFile = ''application/pdf''"
    by (simp add: sampleFile_def)
  show "extractTextFromPdf env sampleFile
          = Inr ''=== Page 1 ===\<newline>Hb low\<newline>\<newline>=== Page 2 ===''"
    using assms(1) by (rule sample_extract)
qed

theorem upload_failure_writes_no_record_witness:
  "addedDocs (events (handleUpload
       (sampleEnv\<lparr>storageUpload := (\<lambda>k f. Some ''bucket not found'')\<rparr>) sampleState)) = []
   \<and> outcome (handleUpload
       (sampleEnv\<lparr>storageUpload := (\<lambda>k f. Some ''bucket not found'')\<rparr>) sampleState)
     = Failed (StorageError ''bucket not found'')"
proof -
  let ?env = "sampleEnv\<lparr>storageUpload := (\<lambda>k f. Some ''bucket not found'')\<rparr>"
  have sel: "selectedFile sampleState = Some sampleFile"
    by (simp add: sampleState_def)
  have up: "storageUpload ?env (storageKey ?env (documentTitle sampleState) sampleFile)
              sampleFile = Some ''bucket not found''"
    by simp
  have "handleUpload ?env sampleState
          = storeAndSave ?env sampleState sampleFile
              ([SetUploadProgress ''Extracting text from PDF...'',
                ExtractTextFromPdf sampleFile]
               @ fst (analysisStep ?env
                        ''=== Page 1 ===\<newline>Hb low\<newline>\<newline>=== Page 2 ===''))
              (Some ''=== Page 1 ===\<newline>Hb low\<newline>\<newline>=== Page 2 ==='')
              (snd (analysisStep ?env
                      ''=== Page 1 ===\<newline>Hb low\<newline>\<newline>=== Page 2 ===''))"
    by (rule handleUpload_sample) (simp_all add: sampleEnv_def)
  then have reached: "StorageUpload (storageKey ?env (documentTitle sampleState) sampleFile)
                        \<in> set (events (handleUpload ?env sampleState))"
    by (simp only: storeAndSave_upload_event)
  show ?thesis
    using upload_failure_writes_no_record [OF sel up] reached by blast
qed

lemma analysisStep_throws:
  assumes "runGeminiAnalysis env text None = Inl e"
  shows "analysisStep env text
           = ([SetUploadProgress ''Analyzing with Gemini AI...'', RunGeminiAnalysis text,
               Toast AIAnalysisWarning], Null)"
  using assms by (simp add: analysisStep_def)

lemma analysisStep_returns:
  assumes "runGeminiAnalysis env text None = Inr raw"
  shows "analysisStep env text
           = ([SetUploadProgress ''Analyzing with Gemini AI...'', RunGeminiAnalysis text],
              parseAnalysis raw)"
  using assms by (simp add: analysisStep_def)

lemma documentDataOf_without_analysis:
  "processingStatus (documentDataOf env docTitle file extracted None)
     = ''uploaded_without_analysis''"
  "category (documentDataOf env docTitle file extracted None) = ''Uncategorized''"
  "anomalies (documentDataOf env docTitle file extracted None) = None"
  "hasAnomalies (documentDataOf env docTitle file extracted None) = None"
  "anomalyCount (documentDataOf env docTitle file extracted None) = None"
  "aiAnalysis (documentDataOf env docTitle file extracted None) = None"
  by (simp_all add: documentDataOf_def)

text \<open>
  Claim C1, as the code has it. When the analysis of a readable PDF throws, the handler
  goes on to the upload; when the upload succeeds it hands one record to the database, with
  \<^verbatim>\<open>processingStatus = "uploaded_without_analysis"\<close> and \<^verbatim>\<open>category = "Uncategorized"\<close>
  and without the properties \<^verbatim>\<open>anomalies\<close> and \<^verbatim>\<open>aiAnalysis\<close>; when the database accepts
  the record the run ends with its identifier.
\<close>

theorem analysis_failure_does_not_abort:
  assumes "selectedFile st = Some file" and "trim (documentTitle st) \<noteq> []"
    and "supabaseConfigured env" and "file_type file = ''application/pdf''"
    and "extractTextFromPdf env file = Inr text"
    and "runGeminiAnalysis env text None = Inl e"
  shows "StorageUpload (storageKey env (documentTitle st) file)
           \<in> set (events (handleUpload env st))
         \<and> (storageUpload env (storageKey env (documentTitle st) file) file = None \<longrightarrow>
             (\<exists>d. addedDocs (events (handleUpload env st)) = [d]
                \<and> processingStatus d = ''uploaded_without_analysis''
                \<and> category d = ''Uncategorized''
                \<and> anomalies d = None
                \<and> aiAnalysis d = None
                \<and> (\<forall>docId. addDoc env d = Inr docId \<longrightarrow>
                      outcome (handleUpload env st) = Done docId)))"
proof -
  let ?d = "documentDataOf env (documentTitle st) file (Some text) None"
  have run: "handleUpload env st
               = storeAndSave env st file
                   ([SetUploadProgress ''Extracting text from PDF...'',
                     ExtractTextFromPdf file]
                    @ [SetUploadProgress ''Analyzing with Gemini AI...'',
                       RunGeminiAnalysis text, Toast AIAnalysisWarning])
                   (Some text) Null"
    using handleUpload_pdf [OF assms(1-5)] analysisStep_throws [OF assms(6)] by simp
  have reached: "StorageUpload (storageKey env (documentTitle st) file)
                   \<in> set (events (handleUpload env st))"
    unfolding run by (rule storeAndSave_upload_event)
  have saved: "addedDocs (events (handleUpload env st)) = [?d]
               \<and> (\<forall>docId. addDoc env ?d = Inr docId \<longrightarrow>
                     outcome (handleUpload env st) = Done docId)"
    if up: "storageUpload env (storageKey env (documentTitle st) file) file = None"
  proof -
    have "addedDocs (events (handleUpload env st)) = [?d]"
      unfolding run using storeAndSave_added [OF up, of Null] by simp
    moreover have "outcome (handleUpload env st) = Done docId"
      if "addDoc env ?d = Inr docId" for docId
      unfolding run using storeAndSave_done [OF up, of Null _ "Some text" docId] that by simp
    ultimately show ?thesis by blast
  qed
  show ?thesis
    using reached saved documentDataOf_without_analysis [of env "documentTitle st" "file" "Some text"]
    by blast
qed

theorem analysis_failure_does_not_abort_witness:
  "map processingStatus
       (addedDocs (events (handleUpload (sampleEnv\<lparr>geminiApiKey := []\<rparr>) sampleState)))
     = [''uploaded_without_analysis'']
   \<and> map category
       (addedDocs (events (handleUpload (sampleEnv\<lparr>geminiApiKey := []\<rparr>) sampleState)))
     = [''Uncategorized'']
   \<and> outcome (handleUpload (sampleEnv\<lparr>geminiApiKey := []\<rparr>) sampleState) = Done ''doc1''"
proof -
  let ?env = "sampleEnv\<lparr>geminiApiKey := []\<rparr>"
  let ?text = "''=== Page 1 ===\<newline>Hb low\<newline>\<newline>=== Page 2 ===''"
  have sel: "selectedFile sampleState = Some sampleFile"
    by (simp add: sampleState_def)
  have conf: "supabaseConfigured ?env"
    by (simp add: sampleEnv_def)
  have pdf: "file_type sampleFile = ''application/pdf''"
    by (simp add: sampleFile_def)
  have ext: "extractTextFromPdf ?env sampleFile = Inr ?text"
    by (rule sample_extract) simp
  have thrown: "runGeminiAnalysis ?env ?text None = Inl GeminiApiKeyMissing"
    by (simp add: runGeminiAnalysis_def)
  have up: "storageUpload ?env (storageKey ?env (documentTitle sampleState) sampleFile)
              sampleFile = None"
    by (simp add: sampleEnv_def)
  have db: "addDoc ?env d = Inr ''doc1''" for d
    by (simp add: sampleEnv_def)
  show ?thesis
    using analysis_failure_does_not_abort [OF sel sample_title conf pdf ext thrown] up db
    by auto
qed

text \<open>
  Claim C1 as stated fails in its last part: with the API key missing, the record handed
  to the database has no \<^verbatim>\<open>anomalies\<close> property at all, where the claim has an empty list.
\<close>

theorem analysis_failure_anomalies_counterexample:
  "map anomalies
       (addedDocs (events (handleUpload (sampleEnv\<lparr>geminiApiKey := []\<rparr>) sampleState)))
     = [None]"
proof -
  let ?env = "sampleEnv\<lparr>geminiApiKey := []\<rparr>"
  let ?text = "''=== Page 1 ===\<newline>Hb low\<newline>\<newline>=== Page 2 ===''"
  have "runGeminiAnalysis ?env ?text None = Inl GeminiApiKeyMissing"
    by (simp add: runGeminiAnalysis_def)
  then have step: "analysisStep ?env ?text
                     = ([SetUploadProgress ''Analyzing with Gemini AI...'',
                         RunGeminiAnalysis ?text, Toast AIAnalysisWarning], Null)"
    by (rule analysisStep_throws)
  have run: "handleUpload ?env sampleState
               = storeAndSave ?env sampleState sampleFile
                   ([SetUploadProgress ''Extracting text from PDF...'',
                     ExtractTextFromPdf sampleFile]
                    @ fst (analysisStep ?env ?text))
                   (Some ?text) (snd (analysisStep ?env ?text))"
    by (rule handleUpload_sample) (simp_all add: sampleEnv_def)
  have up: "storageUpload ?env (storageKey ?env (documentTitle sampleState) sampleFile)
              sampleFile = None"
    by (simp add: sampleEnv_def)
  show ?thesis
    unfolding run step
    using storeAndSave_added [OF up, of Null]
    by (simp add: documentDataOf_without_analysis)
qed

lemma parseAnalysis_fallback:
  assumes "JSON_parse (cleanJson raw) = None"
  shows "parseAnalysis raw
           = Analysis \<lparr>report_title = None, doctor_name = None, report_date = None,
                       tests = None, summary = Some raw\<rparr>"
  using assms by (simp add: parseAnalysis_def)

lemma documentDataOf_fallback:
  "processingStatus (documentDataOf env docTitle file extracted
       (Some \<lparr>report_title = None, doctor_name = None, report_date = None,
              tests = None, summary = Some raw\<rparr>)) = ''completed''"
  "anomalies (documentDataOf env docTitle file extracted
       (Some \<lparr>report_title = None, doctor_name = None, report_date = None,
              tests = None, summary = Some raw\<rparr>)) = Some []"
  "aiAnalysis (documentDataOf env docTitle file extracted
       (Some \<lparr>report_title = None, doctor_name = None, report_date = None,
              tests = None, summary = Some raw\<rparr>))
     = Some \<lparr>reportTitle = docTitle, doctorName = ''Not specified'',
             reportDate = ''Not specified'', aiTests = [],
             aiSummary = (if raw = [] then ''No summary available'' else raw),
             processedAt = processedAtClock env\<rparr>"
  by (simp_all add: documentDataOf_def orDefault_def)

text \<open>
  Claim C3. A model output that \<^verbatim>\<open>JSON.parse\<close> rejects after the fence has been removed
  raises nothing: it becomes an analysis whose \<^verbatim>\<open>summary\<close> is the raw output and which has
  no \<^verbatim>\<open>tests\<close>. The record then handed to the database has
  \<^verbatim>\<open>processingStatus = "completed"\<close>, an empty list of tests and of anomalies, and the raw
  output as its summary (the default summary when the raw output is the empty string).
\<close>

theorem unparseable_output_becomes_summary:
  assumes "JSON_parse (cleanJson raw) = None"
    and "selectedFile st = Some file" and "trim (documentTitle st) \<noteq> []"
    and "supabaseConfigured env" and "file_type file = ''application/pdf''"
    and "extractTextFromPdf env file = Inr text"
    and "runGeminiAnalysis env text None = Inr raw"
    and "storageUpload env (storageKey env (documentTitle st) file) file = None"
  shows "parseAnalysis raw
           = Analysis \<lparr>report_title = None, doctor_name = None, report_date = None,
                       tests = None, summary = Some raw\<rparr>
         \<and> (\<exists>d ai. addedDocs (events (handleUpload env st)) = [d]
                \<and> processingStatus d = ''completed''
                \<and> anomalies d = Some []
                \<and> aiAnalysis d = Some ai
                \<and> aiTests ai = []
                \<and> aiSummary ai = (if raw = [] then ''No summary available'' else raw))"
proof -
  let ?a = "\<lparr>report_title = None, doctor_name = None, report_date = None,
             tests = None, summary = Some raw\<rparr>"
  let ?d = "documentDataOf env (documentTitle st) file (Some text) (Some ?a)"
  have parsed: "parseAnalysis raw = Analysis ?a"
    using assms(1) by (rule parseAnalysis_fallback)
  have run: "handleUpload env st
               = storeAndSave env st file
                   ([SetUploadProgress ''Extracting text from PDF...'',
                     ExtractTextFromPdf file]
                    @ [SetUploadProgress ''Analyzing with Gemini AI...'',
                       RunGeminiAnalysis text])
                   (Some text) (Analysis ?a)"
    using handleUpload_pdf [OF assms(2-6)] analysisStep_returns [OF assms(7)] parsed
    by simp
  have "addedDocs (events (handleUpload env st)) = [?d]"
    unfolding run using storeAndSave_added [OF assms(8), of "Analysis ?a" ?a] by simp
  then show ?thesis
    using parsed documentDataOf_fallback [of env "documentTitle st" "file" "Some text" raw]
    by simp
qed

theorem unparseable_output_becomes_summary_witness:
  "parseAnalysis ''Sorry, no data.''
     = Analysis \<lparr>report_title = None, doctor_name = None, report_date = None,
                 tests = None, summary = Some ''Sorry, no data.''\<rparr>
   \<and> map processingStatus (addedDocs (events (handleUpload
         (sampleEnv\<lparr>generateContent := (\<lambda>p t. Inr ''Sorry, no data.'')\<rparr>) sampleState)))
     = [''completed'']
   \<and> map (map_option aiSummary \<circ> aiAnalysis) (addedDocs (events (handleUpload
         (sampleEnv\<lparr>generateContent := (\<lambda>p t. Inr ''Sorry, no data.'')\<rparr>) sampleState)))
     = [Some ''Sorry, no data.'']"
proof -
  let ?env = "sampleEnv\<lparr>generateContent := (\<lambda>p t. Inr ''Sorry, no data.'')\<rparr>"
  let ?text = "''=== Page 1 ===\<newline>Hb low\<newline>\<newline>=== Page 2 ===''"
  have bad: "JSON_parse (cleanJson ''Sorry, no data.'') = None"
    by code_simp
  have sel: "selectedFile sampleState = Some sampleFile"
    by (simp add: sampleState_def)
  have conf: "supabaseConfigured ?env"
    by (simp add: sampleEnv_def)
  have pdf: "file_type sampleFile = ''application/pdf''"
    by (simp add: sampleFile_def)
  have ext: "extractTextFromPdf ?env sampleFile = Inr ?text"
    by (rule sample_extract) simp
  have out: "runGeminiAnalysis ?env ?text None = Inr ''Sorry, no data.''"
    by (simp add: runGeminiAnalysis_def sampleEnv_def)
  have up: "storageUpload ?env (storageKey ?env (documentTitle sampleState) sampleFile)
              sampleFile = None"
    by (simp add: sampleEnv_def)
  show ?thesis
    using unparseable_output_becomes_summary [OF bad sel sample_title conf pdf ext out up]
    by auto
qed

lemma analysisStep_no_write: "AddDoc d \<notin> set (fst (analysisStep env text))"
  by (simp add: analysisStep_def split: sum.splits)

lemma storeAndSave_events_shape:
  "\<exists>rest. events (storeAndSave env st file evs extracted parsed)
            = (evs @ [SetUploadProgress ''Uploading file to storage...''])
              @ StorageUpload (storageKey env (documentTitle st) file) # rest"
  by (auto simp: storeAndSave_def Let_def uploadFailed_def
           split: option.splits sum.splits ParsedAnalysis.splits)

lemma storeAndSave_upload_precedes:
  assumes "\<forall>d. AddDoc d \<notin> set evs"
  shows "\<exists>before rest.
           events (storeAndSave env st file evs extracted parsed)
             = before @ StorageUpload (storageKey env (documentTitle st) file) # rest
           \<and> (\<forall>d. AddDoc d \<notin> set before)"
proof -
  obtain rest where
    "events (storeAndSave env st file evs extracted parsed)
       = (evs @ [SetUploadProgress ''Uploading file to storage...''])
         @ StorageUpload (storageKey env (documentTitle st) file) # rest"
    using storeAndSave_events_shape by blast
  moreover have "\<forall>d. AddDoc d \<notin> set (evs @ [SetUploadProgress ''Uploading file to storage...''])"
    using assms by simp
  ultimately show ?thesis by blast
qed

lemma handleUpload_events_shape:
  assumes "selectedFile st = Some file"
  shows "(\<forall>d. AddDoc d \<notin> set (events (handleUpload env st)))
         \<or> (\<exists>before rest.
               events (handleUpload env st)
                 = before @ StorageUpload (storageKey env (documentTitle st) file) # rest
               \<and> (\<forall>d. AddDoc d \<notin> set before))"
proof (cases "trim (documentTitle st) = [] \<or> \<not> supabaseConfigured env")
  case True
  with assms show ?thesis
    by (auto simp: handleUpload_def uploadFailed_def)
next
  case ready: False
  show ?thesis
  proof (cases "file_type file = ''application/pdf''")
    case False
    with assms ready have "handleUpload env st = storeAndSave env st file [] None Null"
      by (simp add: handleUpload_def)
    then show ?thesis
      using storeAndSave_upload_precedes [of "[]" env st "file" None Null] by simp
  next
    case True
    show ?thesis
    proof (cases "extractTextFromPdf env file")
      case (Inl e)
      with assms ready True show ?thesis
        by (auto simp: handleUpload_def uploadFailed_def)
    next
      case (Inr body)
      let ?evs = "[SetUploadProgress ''Extracting text from PDF...'', ExtractTextFromPdf file]
                  @ fst (analysisStep env body)"
      have run: "handleUpload env st
              = storeAndSave env st file ?evs (Some body) (snd (analysisStep env body))"
        using assms ready True Inr by (intro handleUpload_pdf) simp_all
      have "\<forall>d. AddDoc d \<notin> set ?evs"
        using analysisStep_no_write by simp
      then show ?thesis
        unfolding run by (intro disjI2 storeAndSave_upload_precedes)
    qed
  qed
qed

text \<open>
  The same fact read from the database side: wherever a run hands a record to the database,
  the object store has accepted the file, and the upload comes earlier in the run.
\<close>

lemma database_write_follows_upload:
  assumes "selectedFile st = Some file"
    and "events (handleUpload env st) = pre @ AddDoc d # post"
  shows "storageUpload env (storageKey env (documentTitle st) file) file = None
         \<and> StorageUpload (storageKey env (documentTitle st) file) \<in> set pre"
proof
  have written: "d \<in> set (addedDocs (events (handleUpload env st)))"
    using assms(2) by (simp add: addedDocs_mem [symmetric])
  show "storageUpload env (storageKey env (documentTitle st) file) file = None"
  proof (cases "storageUpload env (storageKey env (documentTitle st) file) file")
    case None
    then show ?thesis .
  next
    case (Some msg)
    from handleUpload_upload_fails(1) [OF assms(1) Some] written show ?thesis
      by simp
  qed
  from handleUpload_events_shape [OF assms(1), of env] assms(2)
  obtain before rest where shape:
      "pre @ AddDoc d # post
         = before @ StorageUpload (storageKey env (documentTitle st) file) # rest"
      "\<forall>d. AddDoc d \<notin> set before"
    by (metis in_set_conv_decomp)
  from shape(1) obtain us where
      "(pre = before @ us
          \<and> us @ AddDoc d # post
              = StorageUpload (storageKey env (documentTitle st) file) # rest)
       \<or> (pre @ us = before
          \<and> AddDoc d # post
              = us @ StorageUpload (storageKey env (documentTitle st) file) # rest)"
    by (auto simp: append_eq_append_conv2)
  then show "StorageUpload (storageKey env (documentTitle st) file) \<in> set pre"
  proof
    assume a: "pre = before @ us
          \<and> us @ AddDoc d # post
              = StorageUpload (storageKey env (documentTitle st) file) # rest"
    then have "us \<noteq> []" by auto
    with a show ?thesis
      by (cases us) auto
  next
    assume b: "pre @ us = before
          \<and> AddDoc d # post
              = us @ StorageUpload (storageKey env (documentTitle st) file) # rest"
    then have "us \<noteq> []" by auto
    with b have "AddDoc d \<in> set before"
      by (cases us) auto
    with shape(2) show ?thesis by blast
  qed
qed

section \<open>Properties of fence removal and parsing\<close>

lemma prefix_append_fresh:
  assumes "prefix p (u @ x # t)" and "x \<notin> set p"
  shows "prefix p u"
proof -
  from assms(1) have "prefix p u \<or> (\<exists>w. p = u @ w \<and> prefix w (x # t))"
    by (simp add: prefix_append)
  then show ?thesis
  proof
    assume "prefix p u"
    then show ?thesis .
  next
    assume "\<exists>w. p = u @ w \<and> prefix w (x # t)"
    then obtain w where w: "p = u @ w" "prefix w (x # t)"
      by blast
    show ?thesis
    proof (cases w)
      case Nil
      with w(1) show ?thesis by simp
    next
      case (Cons y ys)
      with w(2) have "y = x" by simp
      with Cons w(1) assms(2) show ?thesis by simp
    qed
  qed
qed

lemma includes_str_prefix: "prefix p s \<Longrightarrow> includes_str s p"
  by (cases s) auto

lemma replaceAllOptNL_no_match:
  assumes "\<not> includes_str s pat" and "x \<notin> set pat"
  shows "replaceAllOptNL pat (s @ x # t) = s @ x # replaceAllOptNL pat t"
  using assms
proof (induction s)
  case Nil
  then have "\<not> prefix pat (x # t) \<or> pat = []"
    by (cases pat) auto
  then show ?case
    by (auto simp: replaceAllOptNL.simps)
next
  case (Cons c cs)
  then have "\<not> prefix pat ((c # cs) @ x # t)"
    using prefix_append_fresh [of pat "c # cs" x t] by auto
  with Cons show ?case
    by (auto simp: replaceAllOptNL.simps)
qed

lemma replaceAllOptNL_fence_start:
  assumes "pat \<noteq> []"
  shows "replaceAllOptNL pat (pat @ CHR 0x0A # s) = replaceAllOptNL pat s"
proof -
  obtain c cs where pat: "pat = c # cs"
    using assms by (cases pat) auto
  have "replaceAllOptNL pat ((c # cs) @ CHR 0x0A # s) = replaceAllOptNL pat s"
    by (subst append_Cons, subst replaceAllOptNL.simps) (simp add: pat)
  then show ?thesis
    by (simp add: pat)
qed

lemma replaceFenceAtEnd_closing: "replaceFenceAtEnd (s @ NL @ FENCE) = s @ NL"
proof (induction s)
  case Nil
  show ?case by (simp add: NL_def FENCE_def)
next
  case (Cons c cs)
  have "length (c # cs @ NL @ FENCE) \<noteq> length FENCE"
    "length (c # cs @ NL @ FENCE) \<noteq> length (FENCE @ NL)"
    by (simp_all add: NL_def FENCE_def)
  then have "c # cs @ NL @ FENCE \<noteq> FENCE" "c # cs @ NL @ FENCE \<noteq> FENCE @ NL"
    by metis+
  with Cons show ?case by simp
qed

lemma trim_id:
  assumes "s \<noteq> []" and "\<not> isWhiteSpace (hd s)" and "\<not> isWhiteSpace (last s)"
  shows "trim s = s"
proof -
  have "dropWhile isWhiteSpace s = s"
    using assms(1,2) by (cases s) auto
  moreover have "dropWhile isWhiteSpace (rev s) = rev s"
    using assms(1,3) by (cases "rev s") (auto simp: last_rev [symmetric] simp del: last_rev)
  ultimately show ?thesis
    by (simp add: trim_def)
qed

lemma cleanJson_tagged:
  assumes "\<not> includes_str J (FENCE @ ''json'')"
  shows "cleanJson (FENCE @ ''json'' @ NL @ J @ NL @ FENCE) = J @ NL"
proof -
  let ?w = "FENCE @ ''json'' @ NL @ J @ NL @ FENCE"
  have t: "trim ?w = ?w"
    by (rule trim_id) (simp_all add: FENCE_def NL_def isWhiteSpace_def)
  have s: "startsWith ?w (FENCE @ ''json'')"
    by (simp add: startsWith_def)
  have "replaceAllOptNL (FENCE @ ''json'') ?w
          = replaceAllOptNL (FENCE @ ''json'') (J @ CHR 0x0A # FENCE)"
    using replaceAllOptNL_fence_start [of "FENCE @ ''json''" "J @ NL @ FENCE"]
    by (simp add: NL_def)
  also have "\<dots> = J @ CHR 0x0A # replaceAllOptNL (FENCE @ ''json'') FENCE"
    using assms by (intro replaceAllOptNL_no_match) (simp_all add: FENCE_def)
  also have "replaceAllOptNL (FENCE @ ''json'') FENCE = FENCE"
    by (simp add: FENCE_def replaceAllOptNL.simps)
  finally have "replaceAllOptNL (FENCE @ ''json'') ?w = J @ NL @ FENCE"
    by (simp add: NL_def)
  with t s show ?thesis
    by (simp add: cleanJson_def Let_def replaceFenceAtEnd_closing)
qed

lemma cleanJson_untagged:
  assumes "\<not> includes_str J FENCE"
  shows "cleanJson (FENCE @ NL @ J @ NL @ FENCE) = J @ NL"
proof -
  let ?w = "FENCE @ NL @ J @ NL @ FENCE"
  have t: "trim ?w = ?w"
    by (rule trim_id) (simp_all add: FENCE_def NL_def isWhiteSpace_def)
  have s: "\<not> startsWith ?w (FENCE @ ''json'')" "startsWith ?w FENCE"
    by (simp_all add: startsWith_def FENCE_def NL_def)
  have "replaceAllOptNL FENCE ?w = replaceAllOptNL FENCE (J @ CHR 0x0A # FENCE)"
    using replaceAllOptNL_fence_start [of FENCE "J @ NL @ FENCE"]
    by (simp add: NL_def FENCE_def)
  also have "\<dots> = J @ CHR 0x0A # replaceAllOptNL FENCE FENCE"
    using assms by (intro replaceAllOptNL_no_match) (simp_all add: FENCE_def)
  also have "replaceAllOptNL FENCE FENCE = []"
    by (simp add: FENCE_def replaceAllOptNL.simps)
  finally have "replaceAllOptNL FENCE ?w = J @ NL"
    by (simp add: NL_def)
  with t s show ?thesis
    by (simp add: cleanJson_def Let_def)
qed

lemma lexRun_append:
  "lexRun st (s @ t) = (case lexRun st s of None \<Rightarrow> None | Some st' \<Rightarrow> lexRun st' t)"
  by (induction s arbitrary: st) (auto split: option.splits)

lemma isJsonSpace_isWhiteSpace: "isJsonSpace c \<Longrightarrow> isWhiteSpace c"
  by (auto simp: isJsonSpace_def isWhiteSpace_def)

lemma numStep_space: "isWhiteSpace c \<Longrightarrow> numStep n c = None"
  by (cases n) (auto simp: isWhiteSpace_def isDigit_def isExpMark_def)

lemma startToken_space:
  assumes "isWhiteSpace c"
  shows "startToken toks c = (if isJsonSpace c then Some (LStart, toks) else None)"
proof -
  from assms have "c = CHR 0x09 \<or> c = CHR 0x0A \<or> c = CHR 0x0B \<or> c = CHR 0x0C \<or> c = CHR 0x0D
      \<or> c = CHR 0x20 \<or> c = CHR 0xA0"
    by (simp add: isWhiteSpace_def)
  then show ?thesis
    by (elim disjE) (simp_all add: startToken_def isJsonSpace_def isDigit_def)
qed

lemma startToken_literalOk: "startToken toks c = Some st' \<Longrightarrow> literalOk st'"
  by (auto simp: startToken_def isWhiteSpace_def split: if_splits)

lemma lexStep_literalOk:
  assumes "literalOk st" and "lexStep st c = Some st'"
  shows "literalOk st'"
proof (cases st)
  case (Pair m toks)
  show ?thesis
  proof (cases m)
    case LStart
    with Pair assms show ?thesis
      by (auto dest: startToken_literalOk)
  next
    case (LNumber n lx)
    with Pair assms show ?thesis
      by (auto dest: startToken_literalOk split: option.splits if_splits)
  next
    case (LLiteral rest tok)
    with Pair assms show ?thesis
      by (auto split: list.splits if_splits)
  qed (use Pair assms in \<open>auto split: option.splits if_splits\<close>)
qed

lemma lexRun_literalOk:
  "literalOk st \<Longrightarrow> lexRun st s = Some st' \<Longrightarrow> literalOk st'"
  by (induction s arbitrary: st) (auto split: option.splits dest: lexStep_literalOk)

lemma lexStep_add_space:
  assumes "isJsonSpace c" and "lexEnd st = Some ts"
  shows "\<exists>st'. lexStep st c = Some st' \<and> lexEnd st' = Some ts"
proof (cases st)
  case (Pair m toks)
  from assms(1) have ws: "isWhiteSpace c"
    by (rule isJsonSpace_isWhiteSpace)
  show ?thesis
  proof (cases m)
    case LStart
    with Pair assms ws show ?thesis
      by (simp add: startToken_space)
  next
    case (LNumber n lx)
    with Pair assms ws show ?thesis
      by (simp add: startToken_space numStep_space split: if_splits)
  qed (use Pair assms in auto)
qed

lemma lexStep_drop_space:
  assumes "isWhiteSpace c" and "literalOk st"
    and "lexStep st c = Some st'" and "lexEnd st' = Some ts"
  shows "lexEnd st = Some ts"
proof (cases st)
  case (Pair m toks)
  show ?thesis
  proof (cases m)
    case LStart
    with Pair assms show ?thesis
      by (auto simp: startToken_space split: if_splits)
  next
    case (LString acc)
    with Pair assms show ?thesis
      by (auto simp: isWhiteSpace_def split: if_splits)
  next
    case (LEscape acc)
    with Pair assms show ?thesis
      by (auto simp: escapeValue_def isWhiteSpace_def split: if_splits option.splits)
  next
    case (LHex acc ds)
    with Pair assms show ?thesis
      by (auto simp: hexValue_def isWhiteSpace_def split: if_splits option.splits)
  next
    case (LNumber n lx)
    with Pair assms show ?thesis
      by (auto simp: startToken_space numStep_space split: if_splits)
  next
    case (LLiteral rest tok)
    with Pair assms show ?thesis
      by (auto split: list.splits if_splits)
  qed
qed

lemma tokenize_add_space:
  assumes "tokenize s = Some ts" and "isJsonSpace c"
  shows "tokenize (s @ [c]) = Some ts"
proof -
  from assms(1) obtain st where st: "lexRun (LStart, []) s = Some st" "lexEnd st = Some ts"
    by (auto simp: tokenize_def split: option.splits)
  from lexStep_add_space [OF assms(2) st(2)] obtain st'
    where "lexStep st c = Some st'" "lexEnd st' = Some ts"
    by blast
  with st(1) show ?thesis
    by (simp add: tokenize_def lexRun_append)
qed

lemma tokenize_drop_space:
  assumes "tokenize (s @ [c]) = Some ts" and "isWhiteSpace c"
  shows "tokenize s = Some ts"
proof -
  from assms(1) obtain st st'
    where st: "lexRun (LStart, []) s = Some st" "lexStep st c = Some st'"
      "lexEnd st' = Some ts"
    by (auto simp: tokenize_def lexRun_append split: option.splits)
  have "literalOk st"
    using lexRun_literalOk [OF _ st(1)] by simp
  from lexStep_drop_space [OF assms(2) this st(2,3)] st(1) show ?thesis
    by (simp add: tokenize_def)
qed

lemma tokenize_drop_trailing:
  assumes "tokenize (s @ w) = Some ts" and "\<forall>c \<in> set w. isWhiteSpace c"
  shows "tokenize s = Some ts"
  using assms
proof (induction w rule: rev_induct)
  case Nil
  then show ?case by simp
next
  case (snoc c w)
  from snoc.prems have "tokenize ((s @ w) @ [c]) = Some ts" "isWhiteSpace c"
    by simp_all
  then have "tokenize (s @ w) = Some ts"
    by (rule tokenize_drop_space)
  with snoc show ?case by simp
qed

lemma tokenize_leading:
  assumes "tokenize (c # s) = Some ts" and "isWhiteSpace c"
  shows "tokenize s = Some ts"
  using assms
  by (auto simp: tokenize_def startToken_space split: option.splits if_splits)

lemma tokenize_drop_leading:
  assumes "tokenize s = Some ts"
  shows "tokenize (dropWhile isWhiteSpace s) = Some ts"
  using assms
  by (induction s) (auto dest: tokenize_leading)

lemma tokenize_trim:
  assumes "tokenize s = Some ts"
  shows "tokenize (trim s) = Some ts"
proof -
  let ?l = "dropWhile isWhiteSpace s"
  have "?l = rev (dropWhile isWhiteSpace (rev ?l)) @ rev (takeWhile isWhiteSpace (rev ?l))"
    by (metis rev_append rev_rev_ident takeWhile_dropWhile_id)
  then have split: "?l = trim s @ rev (takeWhile isWhiteSpace (rev ?l))"
    by (simp add: trim_def)
  have "tokenize (trim s @ rev (takeWhile isWhiteSpace (rev ?l))) = Some ts"
    using tokenize_drop_leading [OF assms] split by simp
  then show ?thesis
    by (rule tokenize_drop_trailing) (auto dest: set_takeWhileD)
qed

lemma tokenize_not_fence:
  assumes "tokenize s = Some ts"
  shows "\<not> startsWith s FENCE"
proof
  assume "startsWith s FENCE"
  then obtain r where "s = CHR 0x60 # r"
    by (auto simp: startsWith_def FENCE_def prefix_def)
  with assms show False
    by (simp add: tokenize_def startToken_def isJsonSpace_def isDigit_def)
qed

lemma cleanJson_well_formed:
  assumes "tokenize s = Some ts"
  shows "cleanJson s = trim s"
proof -
  have "\<not> startsWith (trim s) FENCE"
    using tokenize_trim [OF assms] by (rule tokenize_not_fence)
  moreover have "\<not> startsWith (trim s) (FENCE @ ''json'')"
    using calculation by (auto simp: startsWith_def prefix_def)
  ultimately show ?thesis
    by (simp add: cleanJson_def Let_def)
qed

lemma JSON_parse_tokens:
  assumes "JSON_parse s = Some j"
  obtains ts where "tokenize s = Some ts" and "parseRun (PValue, []) ts = Some j"
  using assms by (auto simp: JSON_parse_def split: option.splits)

lemma parseAnalysis_well_formed:
  assumes "JSON_parse s = Some j"
  shows "parseAnalysis s = asGeminiAnalysis j"
proof -
  from assms obtain ts where ts: "tokenize s = Some ts" "parseRun (PValue, []) ts = Some j"
    by (rule JSON_parse_tokens)
  have "JSON_parse (cleanJson s) = Some j"
    using tokenize_trim [OF ts(1)] ts(2)
    by (simp add: cleanJson_well_formed [OF ts(1)] JSON_parse_def)
  then show ?thesis
    by (simp add: parseAnalysis_def)
qed

lemma parseAnalysis_cleaned_newline:
  assumes "JSON_parse s = Some j" and "cleanJson w = s @ NL"
  shows "parseAnalysis w = asGeminiAnalysis j"
proof -
  from assms(1) obtain ts where ts: "tokenize s = Some ts" "parseRun (PValue, []) ts = Some j"
    by (rule JSON_parse_tokens)
  have "tokenize (s @ NL) = Some ts"
    unfolding NL_def using ts(1) by (rule tokenize_add_space) (simp add: isJsonSpace_def)
  with ts(2) assms(2) show ?thesis
    by (simp add: parseAnalysis_def JSON_parse_def)
qed

text \<open>
  Claim C4, as the code has it. For a well-formed output, wrapping it in a fence tagged
  \<^verbatim>\<open>json\<close> gives the same analysis as the output itself when the output holds no fence
  followed by \<^verbatim>\<open>json\<close>, and wrapping it in an untagged fence gives the same analysis when
  the output holds no fence at all.
\<close>

theorem fenced_output_same_analysis:
  assumes "JSON_parse J = Some j"
  shows "(\<not> includes_str J (FENCE @ ''json'') \<longrightarrow>
            parseAnalysis (FENCE @ ''json'' @ NL @ J @ NL @ FENCE) = parseAnalysis J)
         \<and> (\<not> includes_str J FENCE \<longrightarrow>
            parseAnalysis (FENCE @ NL @ J @ NL @ FENCE) = parseAnalysis J)"
proof (intro conjI impI)
  assume "\<not> includes_str J (FENCE @ ''json'')"
  then have "cleanJson (FENCE @ ''json'' @ NL @ J @ NL @ FENCE) = J @ NL"
    by (rule cleanJson_tagged)
  with assms have "parseAnalysis (FENCE @ ''json'' @ NL @ J @ NL @ FENCE) = asGeminiAnalysis j"
    by (rule parseAnalysis_cleaned_newline)
  then show "parseAnalysis (FENCE @ ''json'' @ NL @ J @ NL @ FENCE) = parseAnalysis J"
    using parseAnalysis_well_formed [OF assms] by simp
next
  assume "\<not> includes_str J FENCE"
  then have "cleanJson (FENCE @ NL @ J @ NL @ FENCE) = J @ NL"
    by (rule cleanJson_untagged)
  with assms have "parseAnalysis (FENCE @ NL @ J @ NL @ FENCE) = asGeminiAnalysis j"
    by (rule parseAnalysis_cleaned_newline)
  then show "parseAnalysis (FENCE @ NL @ J @ NL @ FENCE) = parseAnalysis J"
    using parseAnalysis_well_formed [OF assms] by simp
qed

theorem fenced_output_same_analysis_witness:
  "parseAnalysis (FENCE @ ''json'' @ NL @ sampleOutput @ NL @ FENCE)
     = parseAnalysis sampleOutput
   \<and> parseAnalysis (FENCE @ NL @ sampleOutput @ NL @ FENCE) = parseAnalysis sampleOutput
   \<and> parseAnalysis sampleOutput
     = Analysis \<lparr>report_title = None, doctor_name = None, report_date = None,
                 tests = None, summary = Some ''Low iron.''\<rparr>"
proof -
  have wf: "JSON_parse sampleOutput
              = Some (JObject [(map of_char ''summary'', JString (map of_char ''Low iron.''))])"
    by code_simp
  have t: "\<not> includes_str sampleOutput (FENCE @ ''json'')"
    by code_simp
  have u: "\<not> includes_str sampleOutput FENCE"
    by code_simp
  have v: "parseAnalysis sampleOutput
             = Analysis \<lparr>report_title = None, doctor_name = None, report_date = None,
                         tests = None, summary = Some ''Low iron.''\<rparr>"
    by code_simp
  show ?thesis
    using fenced_output_same_analysis [OF wf] t u v by blast
qed

text \<open>
  Claim C4 as stated fails. Both replacements are global, so a fence inside the output
  is removed with the wrapping one: an output whose summary is \<^verbatim>\<open>a```b\<close> parses to that
  summary when it stands alone and to the summary \<^verbatim>\<open>ab\<close> when it is wrapped in an untagged
  fence; the same happens to \<^verbatim>\<open>a```jsonb\<close> inside a fence tagged \<^verbatim>\<open>json\<close>.
\<close>

theorem fenced_output_counterexample:
  "JSON_parse fenceInSummary \<noteq> None
   \<and> parseAnalysis fenceInSummary
     = Analysis \<lparr>report_title = None, doctor_name = None, report_date = None,
                 tests = None, summary = Some (''a'' @ FENCE @ ''b'')\<rparr>
   \<and> parseAnalysis (FENCE @ NL @ fenceInSummary @ NL @ FENCE)
     = Analysis \<lparr>report_title = None, doctor_name = None, report_date = None,
                 tests = None, summary = Some ''ab''\<rparr>
   \<and> JSON_parse taggedFenceInSummary \<noteq> None
   \<and> parseAnalysis taggedFenceInSummary
     = Analysis \<lparr>report_title = None, doctor_name = None, report_date = None,
                 tests = None, summary = Some (''a'' @ FENCE @ ''jsonb'')\<rparr>
   \<and> parseAnalysis (FENCE @ ''json'' @ NL @ taggedFenceInSummary @ NL @ FENCE)
     = Analysis \<lparr>report_title = None, doctor_name = None, report_date = None,
                 tests = None, summary = Some ''ab''\<rparr>"
  by code_simp

end
